theory Spec2Isabelle
  imports Complex_Main "HOL-Library.Sublist" "HOL-Library.Product_Lexorder"
begin

section \<open>Python string primitives used by the report parser\<close>

text \<open>
  A Python string is the list of its Unicode code points, so a line of the report is a list
  of integers; \<open>ustr\<close> gives the code points of a literal written in ASCII. The file is
  opened as text with \<open>encoding='utf-8', errors='ignore'\<close>; the statements below are
  proved for every list of code points as a line, and every list of lines as a file.
\<close>

type_synonym ustring = "int list"

definition ustr :: "string \<Rightarrow> ustring" where
  "ustr s = map of_char s"

definition in_ranges :: "(int \<times> int) list \<Rightarrow> int \<Rightarrow> bool" where
  "in_ranges rs c \<longleftrightarrow> list_ex (\<lambda>(lo, hi). lo \<le> c \<and> c \<le> hi) rs"

text \<open>The white space of \<open>str.split\<close>, \<open>str.strip\<close> and \<open>str.isspace\<close>: tab to carriage
  return, the separators 0x1C to 0x1F, blank, next line (0x85), no-break space (0xA0), and the
  spaces and separators of Unicode beyond Latin-1.\<close>

definition isspace :: "int \<Rightarrow> bool" where
  "isspace c \<longleftrightarrow> in_ranges
     [(0x09, 0x0D), (0x1C, 0x20), (0x85, 0x85), (0xA0, 0xA0), (0x1680, 0x1680),
      (0x2000, 0x200A), (0x2028, 0x2029), (0x202F, 0x202F), (0x205F, 0x205F),
      (0x3000, 0x3000)] c"

text \<open>The characters for which \<open>str.isdigit\<close> holds (Unicode 14.0, the version of
  CPython 3.11): the digits 0 to 9, the superscripts two, three and one of Latin-1, and the
  digits of the other scripts.\<close>

definition isdigit_char :: "int \<Rightarrow> bool" where
  "isdigit_char c \<longleftrightarrow> in_ranges
     [(0x30, 0x39), (0xB2, 0xB3), (0xB9, 0xB9), (0x660, 0x669), (0x6F0, 0x6F9),
      (0x7C0, 0x7C9), (0x966, 0x96F), (0x9E6, 0x9EF), (0xA66, 0xA6F), (0xAE6, 0xAEF),
      (0xB66, 0xB6F), (0xBE6, 0xBEF), (0xC66, 0xC6F), (0xCE6, 0xCEF), (0xD66, 0xD6F),
      (0xDE6, 0xDEF), (0xE50, 0xE59), (0xED0, 0xED9), (0xF20, 0xF29), (0x1040, 0x1049),
      (0x1090, 0x1099), (0x1369, 0x1371), (0x17E0, 0x17E9), (0x1810, 0x1819),
      (0x1946, 0x194F), (0x19D0, 0x19DA), (0x1A80, 0x1A89), (0x1A90, 0x1A99),
      (0x1B50, 0x1B59), (0x1BB0, 0x1BB9), (0x1C40, 0x1C49), (0x1C50, 0x1C59),
      (0x2070, 0x2070), (0x2074, 0x2079), (0x2080, 0x2089), (0x2460, 0x2468),
      (0x2474, 0x247C), (0x2488, 0x2490), (0x24EA, 0x24EA), (0x24F5, 0x24FD),
      (0x24FF, 0x24FF), (0x2776, 0x277E), (0x2780, 0x2788), (0x278A, 0x2792),
      (0xA620, 0xA629), (0xA8D0, 0xA8D9), (0xA900, 0xA909), (0xA9D0, 0xA9D9),
      (0xA9F0, 0xA9F9), (0xAA50, 0xAA59), (0xABF0, 0xABF9), (0xFF10, 0xFF19),
      (0x104A0, 0x104A9), (0x10A40, 0x10A43), (0x10D30, 0x10D39), (0x10E60, 0x10E68),
      (0x11052, 0x1105A), (0x11066, 0x1106F), (0x110F0, 0x110F9), (0x11136, 0x1113F),
      (0x111D0, 0x111D9), (0x112F0, 0x112F9), (0x11450, 0x11459), (0x114D0, 0x114D9),
      (0x11650, 0x11659), (0x116C0, 0x116C9), (0x11730, 0x11739), (0x118E0, 0x118E9),
      (0x11950, 0x11959), (0x11C50, 0x11C59), (0x11D50, 0x11D59), (0x11DA0, 0x11DA9),
      (0x16A60, 0x16A69), (0x16AC0, 0x16AC9), (0x16B50, 0x16B59), (0x1D7CE, 0x1D7FF),
      (0x1E140, 0x1E149), (0x1E2F0, 0x1E2F9), (0x1E950, 0x1E959), (0x1F100, 0x1F10A),
      (0x1FBF0, 0x1FBF9)] c"

text \<open>\<open>s.isdigit()\<close>: at least one character, and every character a digit.\<close>

definition isdigit :: "ustring \<Rightarrow> bool" where
  "isdigit s \<longleftrightarrow> s \<noteq> [] \<and> list_all isdigit_char s"

text \<open>\<open>line.split()\<close>: the maximal runs of characters that are not white space, in order.
  The first argument is the token being read.\<close>

fun split_from :: "ustring \<Rightarrow> ustring \<Rightarrow> ustring list" where
  "split_from cur [] = (if cur = [] then [] else [cur])"
| "split_from cur (c # cs) =
     (if isspace c then (if cur = [] then split_from [] cs else cur # split_from [] cs)
      else split_from (cur @ [c]) cs)"

definition str_split :: "ustring \<Rightarrow> ustring list" where
  "str_split line = split_from [] line"

text \<open>\<open>line.strip()\<close>: white space removed at both ends.\<close>

definition str_strip :: "ustring \<Rightarrow> ustring" where
  "str_strip line = rev (dropWhile isspace (rev (dropWhile isspace line)))"

text \<open>\<open>pat in line\<close>: the pattern occurs as a contiguous block of the line.\<close>

fun contains :: "ustring \<Rightarrow> ustring \<Rightarrow> bool" where
  "contains [] pat = (pat = [])"
| "contains (c # cs) pat = (prefix pat (c # cs) \<or> contains cs pat)"

text \<open>\<open>s.replace('.', '', 1)\<close> deletes the first full stop (0x2E) of \<open>s\<close>, which is
  \<open>remove1 0x2E s\<close>.\<close>

definition numeric_token :: "ustring \<Rightarrow> bool" where
  "numeric_token s \<longleftrightarrow> isdigit (remove1 0x2E s)"

section \<open>Records, parser state and results\<close>

text \<open>
  The builtin \<open>float\<close> is a parameter \<open>pyfloat\<close> of the model: \<open>pyfloat t = None\<close> stands
  for the \<open>ValueError\<close> that \<open>float(t)\<close> raises, so every statement about the pass holds
  for whatever tokens \<open>float\<close> reads. The pass compares no two floats, and the type \<open>'f\<close>
  of the values is any type there.
\<close>

record 'f flood_rec =
  node :: ustring
  MaxFloodingRate :: 'f
  TotalFloodVol :: 'f

record 'f surcharge_rec =
  link :: ustring
  HoursSurcharged :: 'f
  HoursAboveFullNormal :: 'f

record 'f scan_state =
  continuity_error_runoff :: "'f option"
  continuity_error_routing :: "'f option"
  in_flooding_table :: bool
  in_surcharge_table :: bool
  flooded_nodes :: "'f flood_rec list"
  surcharged_links :: "'f surcharge_rec list"

definition init_state :: "'f scan_state" where
  "init_state = \<lparr>continuity_error_runoff = None, continuity_error_routing = None,
                 in_flooding_table = False, in_surcharge_table = False,
                 flooded_nodes = [], surcharged_links = []\<rparr>"

text \<open>The exceptions that can leave the loop body: \<open>float\<close> on a token that is no number,
  \<open>parts[-1]\<close> on an empty token list, and a failure of the file object.\<close>

datatype py_exception = ValueError ustring | IndexError | OSError ustring

text \<open>The dictionary returned on success. A data frame is the list of its rows; \<open>None\<close> is
  Python's \<open>None\<close>.\<close>

record 'f extraction =
  continuity_error_runoff_percent :: "'f option"
  continuity_error_routing_percent :: "'f option"
  top_flooded_nodes :: "'f flood_rec list option"
  top_surcharged_conduits :: "'f surcharge_rec list option"
  raw_flooded_list :: "'f flood_rec list"
  raw_surcharged_list :: "'f surcharge_rec list"

text \<open>The three shapes of the returned dictionary: \<open>{"error": ...}\<close> for a missing file,
  \<open>{"status": "error", "message": ...}\<close> for an exception caught around the pass, and the
  success dictionary.\<close>

datatype 'f outcome =
  NotFound ustring
| StreamError py_exception
| Success "'f extraction"

section \<open>The pass over the lines\<close>

text \<open>Step 1 of the loop body: the continuity figures. \<open>float\<close> is called with no
  handler of its own.\<close>

definition continuity_step ::
  "(ustring \<Rightarrow> 'f option) \<Rightarrow> 'f scan_state \<Rightarrow> ustring \<Rightarrow> py_exception + 'f scan_state" where
  "continuity_step pyfloat s line =
     (if contains line (ustr ''Continuity Error (%)'') then
        (case str_split line of
           [] \<Rightarrow> Inl IndexError
         | p # ps \<Rightarrow>
             (case pyfloat (last (p # ps)) of
                None \<Rightarrow> Inl (ValueError (last (p # ps)))
              | Some val \<Rightarrow>
                  if continuity_error_runoff s = None
                  then Inr (s\<lparr>continuity_error_runoff := Some val\<rparr>)
                  else if continuity_error_routing s = None
                  then Inr (s\<lparr>continuity_error_routing := Some val\<rparr>)
                  else Inr s))
      else Inr s)"

text \<open>The flooding row extractor: the condition of the \<open>if\<close>, then the two conversions
  under \<open>except ValueError: pass\<close>.\<close>

definition flood_row :: "(ustring \<Rightarrow> 'f option) \<Rightarrow> ustring list \<Rightarrow> 'f flood_rec option" where
  "flood_row pyfloat parts =
     (if 6 \<le> length parts \<and> numeric_token (parts ! 1) \<and> parts ! 0 \<noteq> ustr ''Node'' then
        (case pyfloat (parts ! 2) of
           None \<Rightarrow> None
         | Some max_rate \<Rightarrow>
             (case pyfloat (parts ! 5) of
                None \<Rightarrow> None
              | Some total_vol \<Rightarrow>
                  Some \<lparr>node = parts ! 0, MaxFloodingRate = max_rate,
                        TotalFloodVol = total_vol\<rparr>))
      else None)"

definition surcharge_row ::
  "(ustring \<Rightarrow> 'f option) \<Rightarrow> ustring list \<Rightarrow> 'f surcharge_rec option" where
  "surcharge_row pyfloat parts =
     (if 5 \<le> length parts \<and> numeric_token (parts ! 1) \<and> parts ! 0 \<noteq> ustr ''Conduit'' then
        (case pyfloat (parts ! 1) of
           None \<Rightarrow> None
         | Some hours_surcharged \<Rightarrow>
             (case pyfloat (parts ! 3) of
                None \<Rightarrow> None
              | Some hours_full_normal \<Rightarrow>
                  Some \<lparr>link = parts ! 0, HoursSurcharged = hours_surcharged,
                        HoursAboveFullNormal = hours_full_normal\<rparr>))
      else None)"

text \<open>The block \<open>if in_flooding_table:\<close>. The second component says whether the block
  ended in \<open>continue\<close>.\<close>

definition flooding_block ::
  "(ustring \<Rightarrow> 'f option) \<Rightarrow> 'f scan_state \<Rightarrow> ustring \<Rightarrow> 'f scan_state \<times> bool" where
  "flooding_block pyfloat s line =
     (if in_flooding_table s then
        if str_strip line = [] \<and> flooded_nodes s \<noteq> []
        then (s\<lparr>in_flooding_table := False\<rparr>, True)
        else (case flood_row pyfloat (str_split line) of
                None \<Rightarrow> (s, False)
              | Some r \<Rightarrow> (s\<lparr>flooded_nodes := flooded_nodes s @ [r]\<rparr>, False))
      else (s, False))"

text \<open>The block \<open>if in_surcharge_table:\<close>, the last of the loop body.\<close>

definition surcharge_block ::
  "(ustring \<Rightarrow> 'f option) \<Rightarrow> 'f scan_state \<Rightarrow> ustring \<Rightarrow> 'f scan_state" where
  "surcharge_block pyfloat s line =
     (if in_surcharge_table s then
        if str_strip line = [] \<and> surcharged_links s \<noteq> []
        then s\<lparr>in_surcharge_table := False\<rparr>
        else (case surcharge_row pyfloat (str_split line) of
                None \<Rightarrow> s
              | Some r \<Rightarrow> s\<lparr>surcharged_links := surcharged_links s @ [r]\<rparr>)
      else s)"

text \<open>Steps 2 and 3 of the loop body, after the continuity step.\<close>

definition table_step ::
  "(ustring \<Rightarrow> 'f option) \<Rightarrow> 'f scan_state \<Rightarrow> ustring \<Rightarrow> 'f scan_state" where
  "table_step pyfloat s line =
     (if contains line (ustr ''Node Flooding Summary'') then s\<lparr>in_flooding_table := True\<rparr>
      else
        (case flooding_block pyfloat s line of
           (s2, True) \<Rightarrow> s2
         | (s2, False) \<Rightarrow>
             if contains line (ustr ''Conduit Surcharge Summary'')
             then s2\<lparr>in_surcharge_table := True, in_flooding_table := False\<rparr>
             else surcharge_block pyfloat s2 line))"

text \<open>One iteration of \<open>for line in f\<close>.\<close>

definition step ::
  "(ustring \<Rightarrow> 'f option) \<Rightarrow> 'f scan_state \<Rightarrow> ustring \<Rightarrow> py_exception + 'f scan_state" where
  "step pyfloat s line =
     (case continuity_step pyfloat s line of
        Inl e \<Rightarrow> Inl e
      | Inr s1 \<Rightarrow> Inr (table_step pyfloat s1 line))"

text \<open>The loop: an exception ends it.\<close>

fun scan ::
  "(ustring \<Rightarrow> 'f option) \<Rightarrow> 'f scan_state \<Rightarrow> ustring list \<Rightarrow> py_exception + 'f scan_state" where
  "scan pyfloat s [] = Inr s"
| "scan pyfloat s (line # rest) =
     (case step pyfloat s line of
        Inl e \<Rightarrow> Inl e
      | Inr s' \<Rightarrow> scan pyfloat s' rest)"

section \<open>Ranking and the returned dictionary\<close>

text \<open>
  The values that \<open>float\<close> returns and the rows are ranked by: the finite floats, which are
  rationals, the two infinities, and NaN. The two zeros of Python are equal for \<open>==\<close> and
  \<open><\<close> and are one value here.
\<close>

datatype float_value = Finite rat | PosInf | NegInf | NaN

definition is_nan :: "float_value \<Rightarrow> bool" where
  "is_nan x \<longleftrightarrow> x = NaN"

text \<open>The place of a float that is not NaN in the order of the floats, as a pair ordered
  lexicographically.\<close>

definition rank :: "float_value \<Rightarrow> int \<times> rat" where
  "rank x = (case x of NegInf \<Rightarrow> (- 1, 0) | Finite r \<Rightarrow> (0, r) | PosInf \<Rightarrow> (1, 0) | NaN \<Rightarrow> (2, 0))"


definition float_le :: "float_value \<Rightarrow> float_value \<Rightarrow> bool" where
  "float_le a b \<longleftrightarrow> \<not> is_nan a \<and> \<not> is_nan b \<and> rank a \<le> rank b"

text \<open>
  \<open>xs.sort(key=k, reverse=True)\<close>. The keys are computed first and the rows are moved as
  their keys are, so the order of the result depends on the list of keys only. When no key
  is NaN the keys are totally ordered and the result is the one stable descending order:
  Python reverses the list, sorts it stably in ascending order and reverses the result. When
  some key is NaN the comparisons are not those of an order, and the result is whatever
  arrangement the merge strategy of the interpreter leaves; it is the parameter
  \<open>nan_order\<close>, which gives, for the list of keys, the positions in the list of the rows
  of the result.
\<close>

definition sort_desc ::
  "(float_value list \<Rightarrow> nat list) \<Rightarrow> ('a \<Rightarrow> float_value) \<Rightarrow> 'a list \<Rightarrow> 'a list" where
  "sort_desc nan_order k xs =
     (if list_ex is_nan (map k xs) then map (\<lambda>i. xs ! i) (nan_order (map k xs))
      else rev (sort_key (\<lambda>x. rank (k x)) (rev xs)))"

definition finish ::
  "(float_value list \<Rightarrow> nat list) \<Rightarrow> float_value scan_state \<Rightarrow> float_value extraction" where
  "finish nan_order s =
     (let fl = (if flooded_nodes s \<noteq> []
                then sort_desc nan_order TotalFloodVol (flooded_nodes s)
                else flooded_nodes s);
          sl = (if surcharged_links s \<noteq> []
                then sort_desc nan_order HoursSurcharged (surcharged_links s)
                else surcharged_links s)
      in \<lparr>continuity_error_runoff_percent = continuity_error_runoff s,
          continuity_error_routing_percent = continuity_error_routing s,
          top_flooded_nodes = (if flooded_nodes s \<noteq> [] then Some (take 5 fl) else None),
          top_surcharged_conduits = (if surcharged_links s \<noteq> [] then Some (take 5 sl) else None),
          raw_flooded_list = take 5 fl,
          raw_surcharged_list = take 5 sl\<rparr>)"

section \<open>The file system and the entry point\<close>

text \<open>What a path that exists gives when it is opened and iterated: all its lines, or some
  lines and then a failure of the file object (no line at all when \<open>open\<close> itself fails).\<close>

datatype source = Lines "ustring list" | Broken "ustring list" ustring

text \<open>The body of the \<open>try\<close>, on the lines the file yields.\<close>

definition extract_lines ::
  "(ustring \<Rightarrow> float_value option) \<Rightarrow> (float_value list \<Rightarrow> nat list) \<Rightarrow> ustring list
     \<Rightarrow> py_exception + float_value extraction" where
  "extract_lines pyfloat nan_order lines =
     (case scan pyfloat init_state lines of
        Inl e \<Rightarrow> Inl e
      | Inr s \<Rightarrow> Inr (finish nan_order s))"

definition parse_swmm_results ::
  "(ustring \<Rightarrow> float_value option) \<Rightarrow> (float_value list \<Rightarrow> nat list)
     \<Rightarrow> (ustring \<Rightarrow> source option) \<Rightarrow> ustring \<Rightarrow> ustring option \<Rightarrow> float_value outcome" where
  "parse_swmm_results pyfloat nan_order fs rpt_path inp_path =
     (case fs rpt_path of
        None \<Rightarrow> NotFound rpt_path
      | Some (Lines ls) \<Rightarrow>
          (case extract_lines pyfloat nan_order ls of
             Inl e \<Rightarrow> StreamError e
           | Inr r \<Rightarrow> Success r)
      | Some (Broken ls detail) \<Rightarrow>
          (case scan pyfloat init_state ls of
             Inl e \<Rightarrow> StreamError e
           | Inr s \<Rightarrow> StreamError (OSError detail)))"

section \<open>Notions of the specification\<close>

text \<open>Digits with at most one full stop among them, and at least one digit, for a given
  notion of digit. A non-negative decimal number in plain notation is this with the digits 0
  to 9; \<open>digit_token\<close> is this with the digits of \<open>str.isdigit\<close>.\<close>

definition point_separated :: "(int \<Rightarrow> bool) \<Rightarrow> ustring \<Rightarrow> bool" where
  "point_separated digit t \<longleftrightarrow>
     (let whole = takeWhile (\<lambda>c. c \<noteq> 0x2E) t;
          frac = drop 1 (dropWhile (\<lambda>c. c \<noteq> 0x2E) t)
      in list_all digit whole \<and> list_all digit frac \<and> (whole \<noteq> [] \<or> frac \<noteq> []))"

definition decimal_digit :: "int \<Rightarrow> bool" where
  "decimal_digit c \<longleftrightarrow> 0x30 \<le> c \<and> c \<le> 0x39"

definition nonneg_decimal :: "ustring \<Rightarrow> bool" where
  "nonneg_decimal t \<longleftrightarrow> point_separated decimal_digit t"

definition digit_token :: "ustring \<Rightarrow> bool" where
  "digit_token t \<longleftrightarrow> point_separated isdigit_char t"

text \<open>The values of the continuity lines of a report, in file order: for each line that
  contains the label, the float read from its last token, the lines whose last token is no
  float left out.\<close>

definition label_values :: "(ustring \<Rightarrow> 'f option) \<Rightarrow> ustring list \<Rightarrow> 'f list" where
  "label_values pyfloat lines =
     List.map_filter (\<lambda>l. pyfloat (last (str_split l)))
       (filter (\<lambda>l. contains l (ustr ''Continuity Error (%)'')) lines)"

text \<open>The pair of figures, and the rule that fills it: the first value goes to the
  runoff figure, the second to the routing figure, later ones nowhere.\<close>

definition figures :: "'f scan_state \<Rightarrow> 'f option \<times> 'f option" where
  "figures s = (continuity_error_runoff s, continuity_error_routing s)"

definition record_figure :: "'f option \<times> 'f option \<Rightarrow> 'f \<Rightarrow> 'f option \<times> 'f option" where
  "record_figure p v =
     (if fst p = None then (Some v, snd p) else if snd p = None then (fst p, Some v) else p)"

text \<open>Indexing that is \<open>None\<close> out of range, and an optional row as a list of rows.\<close>

definition nth_opt :: "'a list \<Rightarrow> nat \<Rightarrow> 'a option" where
  "nth_opt xs n = (if n < length xs then Some (xs ! n) else None)"

definition opt_list :: "'a option \<Rightarrow> 'a list" where
  "opt_list x = (case x of None \<Rightarrow> [] | Some r \<Rightarrow> [r])"

text \<open>A data line of a table: a line that its row extractor accepts and that holds neither
  marker nor the continuity label; and the record the extractor makes of it.\<close>

definition flood_data_line :: "(ustring \<Rightarrow> 'f option) \<Rightarrow> ustring \<Rightarrow> bool" where
  "flood_data_line pyfloat row \<longleftrightarrow>
     flood_row pyfloat (str_split row) \<noteq> None \<and>
     \<not> contains row (ustr ''Node Flooding Summary'') \<and>
     \<not> contains row (ustr ''Conduit Surcharge Summary'') \<and>
     \<not> contains row (ustr ''Continuity Error (%)'')"

definition surcharge_data_line :: "(ustring \<Rightarrow> 'f option) \<Rightarrow> ustring \<Rightarrow> bool" where
  "surcharge_data_line pyfloat row \<longleftrightarrow>
     surcharge_row pyfloat (str_split row) \<noteq> None \<and>
     \<not> contains row (ustr ''Node Flooding Summary'') \<and>
     \<not> contains row (ustr ''Conduit Surcharge Summary'') \<and>
     \<not> contains row (ustr ''Continuity Error (%)'')"

definition flood_record :: "(ustring \<Rightarrow> 'f option) \<Rightarrow> ustring \<Rightarrow> 'f flood_rec" where
  "flood_record pyfloat row = the (flood_row pyfloat (str_split row))"

definition surcharge_record :: "(ustring \<Rightarrow> 'f option) \<Rightarrow> ustring \<Rightarrow> 'f surcharge_rec" where
  "surcharge_record pyfloat row = the (surcharge_row pyfloat (str_split row))"

text \<open>The rows that the extractor of a table accepts among some lines, in the order of the
  lines. A line that holds the flooding marker is taken as a marker by the loop and is no
  row of either table; a line that holds the surcharge marker is no row of the surcharge
  table.\<close>

definition flood_rows_in :: "(ustring \<Rightarrow> 'f option) \<Rightarrow> ustring list \<Rightarrow> 'f flood_rec list" where
  "flood_rows_in pyfloat ls =
     concat (map (\<lambda>l. opt_list (flood_row pyfloat (str_split l)))
       (filter (\<lambda>l. \<not> contains l (ustr ''Node Flooding Summary'')) ls))"

definition surcharge_rows_in ::
  "(ustring \<Rightarrow> 'f option) \<Rightarrow> ustring list \<Rightarrow> 'f surcharge_rec list" where
  "surcharge_rows_in pyfloat ls =
     concat (map (\<lambda>l. opt_list (surcharge_row pyfloat (str_split l)))
       (filter (\<lambda>l. \<not> contains l (ustr ''Node Flooding Summary'') \<and>
                    \<not> contains l (ustr ''Conduit Surcharge Summary'')) ls))"

text \<open>A line that leaves an open flooding table open: it is not blank and does not hold the
  surcharge marker. A line that leaves an open surcharge table open: it is not blank.\<close>

definition keeps_flooding_open :: "ustring \<Rightarrow> bool" where
  "keeps_flooding_open l \<longleftrightarrow>
     str_strip l \<noteq> [] \<and> \<not> contains l (ustr ''Conduit Surcharge Summary'')"

definition keeps_surcharge_open :: "ustring \<Rightarrow> bool" where
  "keeps_surcharge_open l \<longleftrightarrow> str_strip l \<noteq> []"

section \<open>A reading of \<open>float\<close> for concrete runs\<close>

text \<open>
  \<open>float_decimal\<close> is \<open>float\<close> on plain decimal literals and on the names of the special
  values: an optional sign, then either digits 0 to 9 with at most one full stop and at
  least one digit, or one of the words \<open>nan\<close>, \<open>inf\<close>, \<open>infinity\<close> in any case. It
  returns the exact rational that a decimal literal denotes, where \<open>float\<close> returns the
  double nearest to it, and \<open>None\<close> on any other token. Python reads more tokens than
  these as floats (exponents, digits grouped by underscores, decimal digits of other
  scripts); no sample report below has such a token, no two literals of a sample that differ
  in value are rounded to the same double, and the tokens \<open>n/a\<close>, \<open>****\<close> and the
  superscript two of the samples are rejected by \<open>float\<close> as they are here.
\<close>

fun digits_val :: "int \<Rightarrow> ustring \<Rightarrow> int" where
  "digits_val acc [] = acc"
| "digits_val acc (c # cs) = digits_val (10 * acc + (c - 0x30)) cs"

definition unsigned_decimal :: "ustring \<Rightarrow> rat option" where
  "unsigned_decimal s =
     (if nonneg_decimal s then
        Some (of_int (digits_val 0 (remove1 0x2E s))
              / 10 ^ (length (drop 1 (dropWhile (\<lambda>c. c \<noteq> 0x2E) s))))
      else None)"

definition lower :: "ustring \<Rightarrow> ustring" where
  "lower s = map (\<lambda>c. if 0x41 \<le> c \<and> c \<le> 0x5A then c + 0x20 else c) s"

definition unsigned_float :: "ustring \<Rightarrow> float_value option" where
  "unsigned_float s =
     (if lower s = ustr ''nan'' then Some NaN
      else if lower s = ustr ''inf'' \<or> lower s = ustr ''infinity'' then Some PosInf
      else map_option Finite (unsigned_decimal s))"

definition negate :: "float_value \<Rightarrow> float_value" where
  "negate x = (case x of Finite r \<Rightarrow> Finite (- r) | PosInf \<Rightarrow> NegInf | NegInf \<Rightarrow> PosInf
               | NaN \<Rightarrow> NaN)"

definition float_decimal :: "ustring \<Rightarrow> float_value option" where
  "float_decimal s =
     (case s of
        [] \<Rightarrow> None
      | c # cs \<Rightarrow>
          if c = 0x2D then map_option negate (unsigned_float cs)
          else if c = 0x2B then unsigned_float cs
          else unsigned_float s)"

text \<open>The arrangement that \<open>list.sort\<close> of CPython 3 gives a list of three rows whose
  second key is NaN, as in the sample report with a NaN volume: the comparisons with NaN
  are all false, the list is taken for one ascending run, and the rows stay in file order.\<close>

definition file_order :: "float_value list \<Rightarrow> nat list" where
  "file_order ks = [0..<length ks]"

section \<open>Sample reports\<close>

text \<open>The lines of a text file as the loop \<open>for line in f\<close> receives them: each line ends in
  a line feed (0x0A).\<close>

definition file_lines :: "string list \<Rightarrow> ustring list" where
  "file_lines ls = map (\<lambda>l. ustr l @ [0x0A]) ls"

text \<open>A file system that holds one report, \<open>model.rpt\<close>, and nothing else.\<close>

definition single_report :: "ustring list \<Rightarrow> ustring \<Rightarrow> source option" where
  "single_report ls p = (if p = ustr ''model.rpt'' then Some (Lines ls) else None)"


text \<open>A flooding table of three rows, the second with the volume \<open>nan\<close>.\<close>

definition nan_volume_report :: "ustring list" where
  "nan_volume_report = file_lines
     [''  Node Flooding Summary'',
      ''  J1  1.00  2.0  0  00:10  0.5'',
      ''  J2  1.00  2.0  0  00:20  nan'',
      ''  J3  1.00  2.0  0  00:30  0.7'']"

text \<open>A report with the two continuity lines and no table.\<close>

definition figures_only_report :: "ustring list" where
  "figures_only_report = file_lines
     [''  Continuity Error (%) .....      -0.029'',
      ''  Continuity Error (%) .....      0.441'']"

text \<open>Reports with a continuity line whose last token is no number.\<close>

definition malformed_figure_report :: "ustring list" where
  "malformed_figure_report = file_lines
     [''  Continuity Error (%) .....      n/a'']"

definition skipped_figure_report :: "ustring list" where
  "skipped_figure_report = file_lines
     [''  Continuity Error (%) .....      n/a'',
      ''  Continuity Error (%) .....      -0.029'',
      ''  Continuity Error (%) .....      0.441'']"

definition readable_report :: "ustring list" where
  "readable_report = file_lines
     [''  Node Flooding Summary'',
      ''  J12  5.00  12.5  0  0  0.250'',
      ''  Continuity Error (%) .....      ****'']"

text \<open>A flooding table whose second line is a data row that also holds the marker text.\<close>

definition marker_row_report :: "ustring list" where
  "marker_row_report = file_lines
     [''  Node Flooding Summary'',
      ''  N1  1.0  2.0  0  0  3.0  Node Flooding Summary'']"

text \<open>A row of the flooding table whose second token is the superscript two (0xB2), a digit
  for \<open>str.isdigit\<close> and no number for \<open>float\<close>.\<close>

definition superscript_row :: ustring where
  "superscript_row = ustr ''  J1  '' @ [0xB2] @ ustr ''  12.5  0  0  0.250'' @ [0x0A]"

text \<open>The pieces of a report with two flooding sections and of one with two surcharge
  sections: the first section, the marker line, the column header and the rows of the second
  section.\<close>

definition flood_marker_line :: ustring where
  "flood_marker_line = ustr ''  Node Flooding Summary'' @ [0x0A]"

definition first_flood_section :: "ustring list" where
  "first_flood_section = file_lines
     [''  Node Flooding Summary'', ''  J12  5.00  12.5  0  0  0.250'', []]"

definition flood_header_line :: ustring where
  "flood_header_line = ustr ''  Node   Hours   Rate   Day   Time   Volume'' @ [0x0A]"

definition second_flood_rows :: "ustring list" where
  "second_flood_rows = file_lines
     [''  J44  3.20  18.25  0  0  0.800'', ''  J45  0.75  1.5  0  0  0.125'']"

definition surcharge_marker_line :: ustring where
  "surcharge_marker_line = ustr ''  Conduit Surcharge Summary'' @ [0x0A]"

definition first_surcharge_section :: "ustring list" where
  "first_surcharge_section = file_lines
     [''  Conduit Surcharge Summary'', ''  C1  1.50  1.50  1.50  0.25  0.10'', []]"

definition surcharge_header_line :: ustring where
  "surcharge_header_line = ustr ''  Conduit   Both   Up   Dn   Normal   Limited'' @ [0x0A]"

definition second_surcharge_rows :: "ustring list" where
  "second_surcharge_rows = file_lines
     [''  C2  4.00  4.00  4.00  3.75  2.00'']"

text \<open>A blank line (blanks, a no-break space and a line feed), a flooding data row, and a
  row that both extractors accept.\<close>

definition blank_line :: ustring where
  "blank_line = ustr ''  '' @ [0xA0, 0x0A]"

definition flood_data_row :: ustring where
  "flood_data_row = ustr ''  J12  5.00  12.5  0  0  0.250'' @ [0x0A]"

definition shared_data_row :: ustring where
  "shared_data_row = ustr ''  X7  1.50  2.25  0.75  0  4.5'' @ [0x0A]"

text \<open>The state of the pass just after the marker line of a table, at the start of a
  report.\<close>

definition in_flood_table_state :: "float_value scan_state" where
  "in_flood_table_state = init_state\<lparr>in_flooding_table := True\<rparr>"

definition in_surcharge_table_state :: "float_value scan_state" where
  "in_surcharge_table_state = init_state\<lparr>in_surcharge_table := True\<rparr>"

section \<open>Strings: blank lines, tokens and substrings\<close>

lemma contains_sublist: "contains line pat \<longleftrightarrow> sublist pat line"
  by (induction line) (simp_all add: sublist_Cons_right)

lemma contains_set: "contains line pat \<Longrightarrow> set pat \<subseteq> set line"
  by (auto simp: contains_sublist dest: set_mono_sublist)

lemma strip_empty_iff: "str_strip line = [] \<longleftrightarrow> (\<forall>c\<in>set line. isspace c)"
proof (cases "dropWhile isspace line")
  case Nil
  then have "\<forall>c\<in>set line. isspace c" by (simp add: dropWhile_eq_Nil_conv)
  then show ?thesis unfolding str_strip_def Nil by simp
next
  case (Cons a as)
  then have a: "\<not> isspace a" using hd_dropWhile [of isspace line] by auto
  have "a \<in> set (rev (dropWhile isspace line))" using Cons by simp
  with a have "dropWhile isspace (rev (dropWhile isspace line)) \<noteq> []"
    unfolding dropWhile_eq_Nil_conv by blast
  moreover have "\<not> (\<forall>c\<in>set line. isspace c)"
    using Cons dropWhile_eq_Nil_conv [of isspace line] by auto
  ultimately show ?thesis unfolding str_strip_def by auto
qed

lemma split_from_blank: "\<forall>c\<in>set line. isspace c \<Longrightarrow> split_from [] line = []"
  by (induction line) simp_all

lemma split_from_cur: "cur \<noteq> [] \<Longrightarrow> split_from cur line \<noteq> []"
  by (induction line arbitrary: cur) simp_all

lemma split_from_nonblank: "\<exists>c\<in>set line. \<not> isspace c \<Longrightarrow> split_from cur line \<noteq> []"
  by (induction line arbitrary: cur) (auto simp: split_from_cur)

lemma str_split_empty_iff: "str_split line = [] \<longleftrightarrow> (\<forall>c\<in>set line. isspace c)"
  using split_from_blank split_from_nonblank [of line "[]"] by (auto simp: str_split_def)

lemma blank_not_contains:
  "\<forall>c\<in>set line. isspace c \<Longrightarrow> \<exists>c\<in>set pat. \<not> isspace c \<Longrightarrow> \<not> contains line pat"
  using contains_set by blast

lemma blank_no_flood_marker: "\<forall>c\<in>set line. isspace c \<Longrightarrow> \<not> contains line (ustr ''Node Flooding Summary'')"
  by (rule blank_not_contains) (simp_all add: ustr_def isspace_def in_ranges_def)

lemma blank_no_surcharge_marker: "\<forall>c\<in>set line. isspace c \<Longrightarrow> \<not> contains line (ustr ''Conduit Surcharge Summary'')"
  by (rule blank_not_contains) (simp_all add: ustr_def isspace_def in_ranges_def)

lemma blank_no_label: "\<forall>c\<in>set line. isspace c \<Longrightarrow> \<not> contains line (ustr ''Continuity Error (%)'')"
  by (rule blank_not_contains) (simp_all add: ustr_def isspace_def in_ranges_def)

lemma label_has_tokens: "contains line (ustr ''Continuity Error (%)'') \<Longrightarrow> str_split line \<noteq> []"
  using blank_no_label str_split_empty_iff by blast

section \<open>One iteration of the loop\<close>

lemma flood_row_tokens: "flood_row pyfloat parts = Some r \<Longrightarrow> parts \<noteq> []"
  by (auto simp: flood_row_def split: if_splits)

lemma surcharge_row_tokens: "surcharge_row pyfloat parts = Some r \<Longrightarrow> parts \<noteq> []"
  by (auto simp: surcharge_row_def split: if_splits)

lemma step_no_label: "\<not> contains line (ustr ''Continuity Error (%)'') \<Longrightarrow> step pyfloat s line = Inr (table_step pyfloat s line)"
  by (simp add: step_def continuity_step_def)

lemma continuity_step_tables:
  "continuity_step pyfloat s line = Inr s1 \<Longrightarrow>
     in_flooding_table s1 = in_flooding_table s \<and> in_surcharge_table s1 = in_surcharge_table s \<and>
     flooded_nodes s1 = flooded_nodes s \<and> surcharged_links s1 = surcharged_links s"
  by (auto simp: continuity_step_def split: if_splits list.splits option.splits)

lemma step_Inr: "step pyfloat s line = Inr s' \<Longrightarrow> \<exists>s1. continuity_step pyfloat s line = Inr s1 \<and> s' = table_step pyfloat s1 line"
  by (auto simp: step_def split: sum.splits)

lemma remove1_split:
  "remove1 x xs = takeWhile (\<lambda>c. c \<noteq> x) xs @ drop 1 (dropWhile (\<lambda>c. c \<noteq> x) xs)"
  by (induction xs) auto

text \<open>The test of the code on token 1 in the words of the specification: digits of
  \<open>str.isdigit\<close> with at most one full stop among them, and at least one digit. A
  non-negative decimal number in plain notation passes it.\<close>

lemma numeric_token_digits: "numeric_token t \<longleftrightarrow> digit_token t"
  unfolding numeric_token_def digit_token_def point_separated_def isdigit_def Let_def
  by (subst (1 2) remove1_split) auto

lemma decimal_digit_isdigit: "decimal_digit c \<Longrightarrow> isdigit_char c"
  by (simp add: decimal_digit_def isdigit_char_def in_ranges_def)

lemma nonneg_decimal_numeric: "nonneg_decimal t \<Longrightarrow> numeric_token t"
  unfolding numeric_token_digits nonneg_decimal_def digit_token_def point_separated_def Let_def
  by (auto simp: list_all_iff decimal_digit_isdigit)

lemma flood_row_Nil: "flood_row pyfloat [] = None"
  by (simp add: flood_row_def)

lemma surcharge_row_Nil: "surcharge_row pyfloat [] = None"
  by (simp add: surcharge_row_def)

lemma table_step_flood_marker:
  "contains line (ustr ''Node Flooding Summary'') \<Longrightarrow>
     table_step pyfloat s line = s\<lparr>in_flooding_table := True\<rparr>"
  by (simp add: table_step_def)

lemma table_step_flooded:
  "flooded_nodes (table_step pyfloat s line) =
     flooded_nodes s @
       (if in_flooding_table s \<and> \<not> contains line (ustr ''Node Flooding Summary'')
        then opt_list (flood_row pyfloat (str_split line)) else [])"
  by (auto simp: table_step_def flooding_block_def surcharge_block_def opt_list_def
        strip_empty_iff str_split_empty_iff [symmetric] flood_row_Nil
      split: option.splits)

lemma table_step_surcharged:
  "surcharged_links (table_step pyfloat s line) =
     surcharged_links s @
       (if in_surcharge_table s \<and> \<not> contains line (ustr ''Node Flooding Summary'')
           \<and> \<not> contains line (ustr ''Conduit Surcharge Summary'')
        then opt_list (surcharge_row pyfloat (str_split line)) else [])"
  by (auto simp: table_step_def flooding_block_def surcharge_block_def opt_list_def
        strip_empty_iff str_split_empty_iff [symmetric] surcharge_row_Nil
      split: option.splits)

lemma table_step_blank:
  assumes "\<forall>c\<in>set line. isspace c"
  shows "table_step pyfloat s line =
     (if in_flooding_table s \<and> flooded_nodes s \<noteq> [] then s\<lparr>in_flooding_table := False\<rparr>
      else if in_surcharge_table s \<and> surcharged_links s \<noteq> [] then s\<lparr>in_surcharge_table := False\<rparr>
      else s)"
proof -
  have sp: "str_split line = []" and st: "str_strip line = []"
    using assms by (simp_all add: str_split_empty_iff strip_empty_iff)
  show ?thesis
    using blank_no_flood_marker [OF assms] blank_no_surcharge_marker [OF assms]
    by (simp add: table_step_def flooding_block_def surcharge_block_def sp st
          flood_row_Nil surcharge_row_Nil)
qed

lemma table_step_surcharge_marker:
  assumes "contains line (ustr ''Conduit Surcharge Summary'')" "\<not> contains line (ustr ''Node Flooding Summary'')"
  shows "in_surcharge_table (table_step pyfloat s line) \<and> \<not> in_flooding_table (table_step pyfloat s line)"
proof -
  have "\<not> (\<forall>c\<in>set line. isspace c)" using assms(1) blank_no_surcharge_marker by blast
  then have "str_strip line \<noteq> []" by (simp add: strip_empty_iff)
  then show ?thesis using assms
    by (auto simp: table_step_def flooding_block_def split: option.splits)
qed

lemma table_step_row_flags:
  assumes "\<not> contains line (ustr ''Conduit Surcharge Summary'')" "\<not> contains line (ustr ''Node Flooding Summary'')"
    and "\<not> (\<forall>c\<in>set line. isspace c)"
  shows "in_surcharge_table (table_step pyfloat s line) = in_surcharge_table s
       \<and> in_flooding_table (table_step pyfloat s line) = in_flooding_table s"
proof -
  have "str_strip line \<noteq> []" using assms(3) by (simp add: strip_empty_iff)
  then show ?thesis using assms
    by (auto simp: table_step_def flooding_block_def surcharge_block_def split: option.splits)
qed

lemma table_step_figures:
  "continuity_error_runoff (table_step pyfloat s line) = continuity_error_runoff s \<and>
   continuity_error_routing (table_step pyfloat s line) = continuity_error_routing s"
  by (auto simp: table_step_def flooding_block_def surcharge_block_def split: option.splits)

lemma step_flooded:
  assumes "step pyfloat s line = Inr s'"
  shows "flooded_nodes s' = flooded_nodes s @
       (if in_flooding_table s \<and> \<not> contains line (ustr ''Node Flooding Summary'')
        then opt_list (flood_row pyfloat (str_split line)) else [])"
proof -
  obtain s1 where c: "continuity_step pyfloat s line = Inr s1" and t: "s' = table_step pyfloat s1 line"
    using step_Inr [OF assms] by blast
  show ?thesis using continuity_step_tables [OF c] by (simp add: t table_step_flooded)
qed

lemma step_surcharged:
  assumes "step pyfloat s line = Inr s'"
  shows "surcharged_links s' = surcharged_links s @
       (if in_surcharge_table s \<and> \<not> contains line (ustr ''Node Flooding Summary'')
           \<and> \<not> contains line (ustr ''Conduit Surcharge Summary'')
        then opt_list (surcharge_row pyfloat (str_split line)) else [])"
proof -
  obtain s1 where c: "continuity_step pyfloat s line = Inr s1" and t: "s' = table_step pyfloat s1 line"
    using step_Inr [OF assms] by blast
  show ?thesis using continuity_step_tables [OF c] by (simp add: t table_step_surcharged)
qed

section \<open>The whole pass\<close>

lemma scan_append:
  "scan pyfloat s (xs @ ys) =
     (case scan pyfloat s xs of Inl e \<Rightarrow> Inl e | Inr s' \<Rightarrow> scan pyfloat s' ys)"
  by (induction xs arbitrary: s) (auto split: sum.splits)

lemma scan_flooded_prefix:
  "scan pyfloat s lines = Inr s' \<Longrightarrow> prefix (flooded_nodes s) (flooded_nodes s')"
proof (induction lines arbitrary: s)
  case Nil
  then show ?case by simp
next
  case (Cons l ls)
  then obtain s1 where a: "step pyfloat s l = Inr s1" and b: "scan pyfloat s1 ls = Inr s'"
    by (auto split: sum.splits)
  have "prefix (flooded_nodes s) (flooded_nodes s1)" using step_flooded [OF a] by simp
  with Cons.IH [OF b] show ?case using prefix_order.order_trans by blast
qed

lemma scan_surcharged_prefix:
  "scan pyfloat s lines = Inr s' \<Longrightarrow> prefix (surcharged_links s) (surcharged_links s')"
proof (induction lines arbitrary: s)
  case Nil
  then show ?case by simp
next
  case (Cons l ls)
  then obtain s1 where a: "step pyfloat s l = Inr s1" and b: "scan pyfloat s1 ls = Inr s'"
    by (auto split: sum.splits)
  have "prefix (surcharged_links s) (surcharged_links s1)" using step_surcharged [OF a] by simp
  with Cons.IH [OF b] show ?case using prefix_order.order_trans by blast
qed

lemma continuity_step_figures:
  assumes "continuity_step pyfloat s line = Inr s1"
  shows "figures s1 = foldl record_figure (figures s) (label_values pyfloat [line])"
  using assms
  by (auto simp: continuity_step_def label_values_def List.map_filter_def figures_def
        record_figure_def split: if_splits list.splits option.splits)

lemma step_figures:
  assumes "step pyfloat s line = Inr s'"
  shows "figures s' = foldl record_figure (figures s) (label_values pyfloat [line])"
proof -
  obtain s1 where c: "continuity_step pyfloat s line = Inr s1" and t: "s' = table_step pyfloat s1 line"
    using step_Inr [OF assms] by blast
  have "figures s' = figures s1" by (simp add: t figures_def table_step_figures)
  then show ?thesis using continuity_step_figures [OF c] by simp
qed

lemma label_values_Cons:
  "label_values pyfloat (l # ls) = label_values pyfloat [l] @ label_values pyfloat ls"
  by (simp add: label_values_def List.map_filter_def)

lemma scan_figures:
  "scan pyfloat s lines = Inr s' \<Longrightarrow>
     figures s' = foldl record_figure (figures s) (label_values pyfloat lines)"
proof (induction lines arbitrary: s)
  case Nil
  then show ?case by (simp add: label_values_def List.map_filter_def)
next
  case (Cons l ls)
  then obtain s1 where a: "step pyfloat s l = Inr s1" and b: "scan pyfloat s1 ls = Inr s'"
    by (auto split: sum.splits)
  show ?case
    using Cons.IH [OF b] step_figures [OF a]
    by (subst label_values_Cons) simp
qed

lemma record_figure_full: "foldl record_figure (Some a, Some b) vs = (Some a, Some b)"
  by (induction vs) (simp_all add: record_figure_def)

lemma record_figure_first_two:
  "foldl record_figure (None, None) vs = (nth_opt vs 0, nth_opt vs 1)"
proof (cases vs)
  case Nil
  then show ?thesis by (simp add: nth_opt_def)
next
  case (Cons v ws)
  then show ?thesis
    by (cases ws) (simp_all add: nth_opt_def record_figure_def record_figure_full)
qed

lemma scan_first_two_figures:
  assumes "scan pyfloat init_state lines = Inr s"
  shows "continuity_error_runoff s = nth_opt (label_values pyfloat lines) 0"
    and "continuity_error_routing s = nth_opt (label_values pyfloat lines) 1"
  using scan_figures [OF assms] record_figure_first_two [of "label_values pyfloat lines"]
  by (simp_all add: figures_def init_state_def)

lemma step_label_failure:
  assumes "contains line (ustr ''Continuity Error (%)'')" "pyfloat (last (str_split line)) = None"
  shows "step pyfloat s line = Inl (ValueError (last (str_split line)))"
  using assms label_has_tokens [OF assms(1)]
  by (auto simp: step_def continuity_step_def split: list.splits)

lemma step_failure_cases:
  assumes "step pyfloat s line = Inl e"
  shows "contains line (ustr ''Continuity Error (%)'') \<and> pyfloat (last (str_split line)) = None
         \<and> e = ValueError (last (str_split line))"
proof -
  have c: "contains line (ustr ''Continuity Error (%)'')"
    using assms by (auto simp: step_def continuity_step_def split: if_splits)
  from label_has_tokens [OF c] obtain p ps where "str_split line = p # ps"
    by (cases "str_split line") auto
  then show ?thesis using assms c
    by (auto simp: step_def continuity_step_def split: option.splits if_splits)
qed

lemma scan_failure_cases:
  "scan pyfloat s lines = Inl e \<Longrightarrow>
     \<exists>l\<in>set lines. contains l (ustr ''Continuity Error (%)'') \<and> pyfloat (last (str_split l)) = None
        \<and> e = ValueError (last (str_split l))"
proof (induction lines arbitrary: s)
  case Nil
  then show ?case by simp
next
  case (Cons l ls)
  show ?case
  proof (cases "step pyfloat s l")
    case (Inl e')
    with Cons.prems have "e' = e" by simp
    with step_failure_cases [OF Inl] show ?thesis by auto
  next
    case (Inr s1)
    with Cons.prems have "scan pyfloat s1 ls = Inl e" by simp
    from Cons.IH [OF this] show ?thesis by auto
  qed
qed

lemma scan_success_iff:
  "(\<exists>s'. scan pyfloat s lines = Inr s') \<longleftrightarrow>
     list_all (\<lambda>l. contains l (ustr ''Continuity Error (%)'') \<longrightarrow> pyfloat (last (str_split l)) \<noteq> None) lines"
proof (induction lines arbitrary: s)
  case Nil
  then show ?case by simp
next
  case (Cons l ls)
  show ?case
  proof (cases "step pyfloat s l")
    case (Inl e)
    with step_failure_cases [OF Inl] show ?thesis by simp
  next
    case (Inr s1)
    have "contains l (ustr ''Continuity Error (%)'') \<longrightarrow> pyfloat (last (str_split l)) \<noteq> None"
      using step_label_failure [of l pyfloat s] Inr by auto
    with Inr Cons.IH [of s1] show ?thesis by simp
  qed
qed

lemma no_flood_marker_no_rows:
  "list_all (\<lambda>l. \<not> contains l (ustr ''Node Flooding Summary'')) lines \<Longrightarrow>
   scan pyfloat s lines = Inr s' \<Longrightarrow> \<not> in_flooding_table s \<Longrightarrow>
     \<not> in_flooding_table s' \<and> flooded_nodes s' = flooded_nodes s"
proof (induction lines arbitrary: s)
  case Nil
  then show ?case by simp
next
  case (Cons l ls)
  then obtain s1 where a: "step pyfloat s l = Inr s1" and b: "scan pyfloat s1 ls = Inr s'"
    by (auto split: sum.splits)
  obtain s0 where c: "continuity_step pyfloat s l = Inr s0" and t: "s1 = table_step pyfloat s0 l"
    using step_Inr [OF a] by blast
  have n0: "\<not> in_flooding_table s0" using continuity_step_tables [OF c] Cons.prems(3) by simp
  have n1: "\<not> in_flooding_table s1"
    using n0 Cons.prems(1)
    by (auto simp: t table_step_def flooding_block_def surcharge_block_def split: option.splits)
  have "flooded_nodes s1 = flooded_nodes s" using step_flooded [OF a] Cons.prems(3) by simp
  with Cons.IH [OF _ b n1] Cons.prems(1) show ?case by simp
qed

lemma no_surcharge_marker_no_rows:
  "list_all (\<lambda>l. \<not> contains l (ustr ''Conduit Surcharge Summary'')) lines \<Longrightarrow>
   scan pyfloat s lines = Inr s' \<Longrightarrow> \<not> in_surcharge_table s \<Longrightarrow>
     \<not> in_surcharge_table s' \<and> surcharged_links s' = surcharged_links s"
proof (induction lines arbitrary: s)
  case Nil
  then show ?case by simp
next
  case (Cons l ls)
  then obtain s1 where a: "step pyfloat s l = Inr s1" and b: "scan pyfloat s1 ls = Inr s'"
    by (auto split: sum.splits)
  obtain s0 where c: "continuity_step pyfloat s l = Inr s0" and t: "s1 = table_step pyfloat s0 l"
    using step_Inr [OF a] by blast
  have n0: "\<not> in_surcharge_table s0" using continuity_step_tables [OF c] Cons.prems(3) by simp
  have n1: "\<not> in_surcharge_table s1"
    using n0 Cons.prems(1)
    by (auto simp: t table_step_def flooding_block_def surcharge_block_def split: option.splits)
  have "surcharged_links s1 = surcharged_links s" using step_surcharged [OF a] Cons.prems(3) by simp
  with Cons.IH [OF _ b n1] Cons.prems(1) show ?case by simp
qed

section \<open>Blocks of data lines\<close>

lemma flood_data_line_step:
  assumes "in_flooding_table s" "flood_data_line pyfloat row"
  shows "\<exists>s'. step pyfloat s row = Inr s' \<and> in_flooding_table s' \<and>
           in_surcharge_table s' = in_surcharge_table s \<and>
           flooded_nodes s' = flooded_nodes s @ [flood_record pyfloat row]"
proof -
  have st: "step pyfloat s row = Inr (table_step pyfloat s row)"
    using assms(2) by (simp add: flood_data_line_def step_no_label)
  have "str_split row \<noteq> []"
    using assms(2) flood_row_Nil [of pyfloat] by (auto simp: flood_data_line_def)
  then have nb: "\<not> (\<forall>c\<in>set row. isspace c)" by (simp add: str_split_empty_iff)
  have fl: "in_flooding_table (table_step pyfloat s row)"
           "in_surcharge_table (table_step pyfloat s row) = in_surcharge_table s"
    using table_step_row_flags [OF _ _ nb, of pyfloat s] assms
    by (simp_all add: flood_data_line_def)
  have "flooded_nodes (table_step pyfloat s row) = flooded_nodes s @ [flood_record pyfloat row]"
    using step_flooded [OF st] assms
    by (auto simp: flood_data_line_def flood_record_def opt_list_def)
  with st fl show ?thesis by simp
qed

lemma surcharge_data_line_step:
  assumes "in_surcharge_table s" "surcharge_data_line pyfloat row"
  shows "\<exists>s'. step pyfloat s row = Inr s' \<and> in_surcharge_table s' \<and>
           in_flooding_table s' = in_flooding_table s \<and>
           surcharged_links s' = surcharged_links s @ [surcharge_record pyfloat row]"
proof -
  have st: "step pyfloat s row = Inr (table_step pyfloat s row)"
    using assms(2) by (simp add: surcharge_data_line_def step_no_label)
  have "str_split row \<noteq> []"
    using assms(2) surcharge_row_Nil [of pyfloat] by (auto simp: surcharge_data_line_def)
  then have nb: "\<not> (\<forall>c\<in>set row. isspace c)" by (simp add: str_split_empty_iff)
  have fl: "in_surcharge_table (table_step pyfloat s row)"
           "in_flooding_table (table_step pyfloat s row) = in_flooding_table s"
    using table_step_row_flags [OF _ _ nb, of pyfloat s] assms
    by (simp_all add: surcharge_data_line_def)
  have "surcharged_links (table_step pyfloat s row)
      = surcharged_links s @ [surcharge_record pyfloat row]"
    using step_surcharged [OF st] assms
    by (auto simp: surcharge_data_line_def surcharge_record_def opt_list_def)
  with st fl show ?thesis by simp
qed

lemma scan_flood_rows:
  "in_flooding_table s \<Longrightarrow> list_all (flood_data_line pyfloat) rows \<Longrightarrow>
     \<exists>s'. scan pyfloat s rows = Inr s' \<and> in_flooding_table s' \<and>
       flooded_nodes s' = flooded_nodes s @ map (flood_record pyfloat) rows"
proof (induction rows arbitrary: s)
  case Nil
  then show ?case by simp
next
  case (Cons row rows)
  then obtain s1 where s1: "step pyfloat s row = Inr s1" "in_flooding_table s1"
      "flooded_nodes s1 = flooded_nodes s @ [flood_record pyfloat row]"
    using flood_data_line_step [of s pyfloat row] by auto
  from Cons.IH [OF s1(2)] Cons.prems(2) s1 show ?case by auto
qed

lemma scan_surcharge_rows:
  "in_surcharge_table s \<Longrightarrow> list_all (surcharge_data_line pyfloat) rows \<Longrightarrow>
     \<exists>s'. scan pyfloat s rows = Inr s' \<and> in_surcharge_table s' \<and>
       surcharged_links s' = surcharged_links s @ map (surcharge_record pyfloat) rows"
proof (induction rows arbitrary: s)
  case Nil
  then show ?case by simp
next
  case (Cons row rows)
  then obtain s1 where s1: "step pyfloat s row = Inr s1" "in_surcharge_table s1"
      "surcharged_links s1 = surcharged_links s @ [surcharge_record pyfloat row]"
    using surcharge_data_line_step [of s pyfloat row] by auto
  from Cons.IH [OF s1(2)] Cons.prems(2) s1 show ?case by auto
qed


section \<open>Lines read while a table is open\<close>

lemma step_keeps_flooding_open:
  assumes "in_flooding_table s" "keeps_flooding_open line" "step pyfloat s line = Inr s'"
  shows "in_flooding_table s'"
proof -
  obtain s1 where c: "continuity_step pyfloat s line = Inr s1" and t: "s' = table_step pyfloat s1 line"
    using step_Inr [OF assms(3)] by blast
  have o: "in_flooding_table s1" using continuity_step_tables [OF c] assms(1) by simp
  show ?thesis
  proof (cases "contains line (ustr ''Node Flooding Summary'')")
    case True
    then show ?thesis by (simp add: t table_step_flood_marker)
  next
    case False
    have nb: "\<not> (\<forall>c\<in>set line. isspace c)"
      using assms(2) by (simp add: keeps_flooding_open_def strip_empty_iff)
    have ns: "\<not> contains line (ustr ''Conduit Surcharge Summary'')"
      using assms(2) by (simp add: keeps_flooding_open_def)
    from table_step_row_flags [OF ns False nb, of pyfloat s1] o show ?thesis by (simp add: t)
  qed
qed

lemma step_keeps_surcharge_open:
  assumes "in_surcharge_table s" "keeps_surcharge_open line" "step pyfloat s line = Inr s'"
  shows "in_surcharge_table s'"
proof -
  obtain s1 where c: "continuity_step pyfloat s line = Inr s1" and t: "s' = table_step pyfloat s1 line"
    using step_Inr [OF assms(3)] by blast
  have o: "in_surcharge_table s1" using continuity_step_tables [OF c] assms(1) by simp
  show ?thesis
  proof (cases "contains line (ustr ''Node Flooding Summary'')")
    case True
    then show ?thesis using o by (simp add: t table_step_flood_marker)
  next
    case False
    show ?thesis
    proof (cases "contains line (ustr ''Conduit Surcharge Summary'')")
      case True
      from table_step_surcharge_marker [OF True False, of pyfloat s1] show ?thesis by (simp add: t)
    next
      case ns: False
      have nb: "\<not> (\<forall>c\<in>set line. isspace c)"
        using assms(2) by (simp add: keeps_surcharge_open_def strip_empty_iff)
      from table_step_row_flags [OF ns False nb, of pyfloat s1] o show ?thesis by (simp add: t)
    qed
  qed
qed

lemma flood_rows_in_Cons:
  "flood_rows_in pyfloat (l # ls) =
     (if contains l (ustr ''Node Flooding Summary'') then []
      else opt_list (flood_row pyfloat (str_split l))) @ flood_rows_in pyfloat ls"
  by (simp add: flood_rows_in_def)

lemma surcharge_rows_in_Cons:
  "surcharge_rows_in pyfloat (l # ls) =
     (if contains l (ustr ''Node Flooding Summary'') \<or> contains l (ustr ''Conduit Surcharge Summary'')
      then [] else opt_list (surcharge_row pyfloat (str_split l))) @ surcharge_rows_in pyfloat ls"
  by (simp add: surcharge_rows_in_def)

lemma scan_open_flooding:
  "in_flooding_table s \<Longrightarrow> list_all keeps_flooding_open body \<Longrightarrow>
   scan pyfloat s body = Inr s' \<Longrightarrow>
     in_flooding_table s' \<and> flooded_nodes s' = flooded_nodes s @ flood_rows_in pyfloat body"
proof (induction body arbitrary: s)
  case Nil
  then show ?case by (simp add: flood_rows_in_def)
next
  case (Cons l ls)
  then obtain s1 where a: "step pyfloat s l = Inr s1" and b: "scan pyfloat s1 ls = Inr s'"
    by (auto split: sum.splits)
  have o: "in_flooding_table s1"
    using step_keeps_flooding_open [OF Cons.prems(1) _ a] Cons.prems(2) by simp
  have "flooded_nodes s1 = flooded_nodes s @ flood_rows_in pyfloat [l]"
    using step_flooded [OF a] Cons.prems(1) by (simp add: flood_rows_in_def)
  with Cons.IH [OF o _ b] Cons.prems(2) show ?case
    by (simp add: flood_rows_in_def)
qed

lemma scan_open_surcharge:
  "in_surcharge_table s \<Longrightarrow> list_all keeps_surcharge_open body \<Longrightarrow>
   scan pyfloat s body = Inr s' \<Longrightarrow>
     in_surcharge_table s' \<and>
     surcharged_links s' = surcharged_links s @ surcharge_rows_in pyfloat body"
proof (induction body arbitrary: s)
  case Nil
  then show ?case by (simp add: surcharge_rows_in_def)
next
  case (Cons l ls)
  then obtain s1 where a: "step pyfloat s l = Inr s1" and b: "scan pyfloat s1 ls = Inr s'"
    by (auto split: sum.splits)
  have o: "in_surcharge_table s1"
    using step_keeps_surcharge_open [OF Cons.prems(1) _ a] Cons.prems(2) by simp
  have "surcharged_links s1 = surcharged_links s @ surcharge_rows_in pyfloat [l]"
    using step_surcharged [OF a] Cons.prems(1) by (simp add: surcharge_rows_in_def)
  with Cons.IH [OF o _ b] Cons.prems(2) show ?case
    by (simp add: surcharge_rows_in_def)
qed

section \<open>Stable descending sort and truncation\<close>







text \<open>Whatever arrangement \<open>list.sort\<close> leaves, a list of two or more rows one of whose
  keys is NaN is not in descending order: \<open><=\<close> is false of NaN and any other key.\<close>

lemma nan_key_unsorted:
  assumes "x \<in> set rows" "is_nan (k x)" "2 \<le> length rows"
  shows "\<not> sorted_wrt (\<lambda>a b. float_le (k b) (k a)) rows"
proof
  assume s: "sorted_wrt (\<lambda>a b. float_le (k b) (k a)) rows"
  from assms(1) obtain i where i: "i < length rows" "rows ! i = x"
    by (auto simp: in_set_conv_nth)
  from assms(3) i(1) obtain j where j: "j < length rows" "j \<noteq> i"
    by (cases "i = 0") (auto intro: that [of 1] that [of 0])
  then consider "i < j" | "j < i" by linarith
  then show False
  proof cases
    case 1
    with s i j have "float_le (k (rows ! j)) (k x)" by (auto simp: sorted_wrt_iff_nth_less)
    with assms(2) show False by (simp add: float_le_def)
  next
    case 2
    with s i j have "float_le (k x) (k (rows ! j))" by (auto simp: sorted_wrt_iff_nth_less)
    with assms(2) show False by (simp add: float_le_def)
  qed
qed

section \<open>Failures of the pass\<close>

text \<open>The only exception the loop body can raise is the \<open>ValueError\<close> of the continuity
  step; \<open>parts[-1]\<close> never fails, since a line that holds the label has a token. A report
  that is read to its end with no such exception gives the success dictionary.\<close>

lemma parse_success:
  "fs rpt_path = Some (Lines ls) \<Longrightarrow> scan pyfloat init_state ls = Inr s \<Longrightarrow>
     parse_swmm_results pyfloat nan_order fs rpt_path inp_path = Success (finish nan_order s)"
  by (simp add: parse_swmm_results_def extract_lines_def)

lemma missing_report_not_found:
  "fs rpt_path = None \<Longrightarrow>
     parse_swmm_results pyfloat nan_order fs rpt_path inp_path = NotFound rpt_path"
  by (simp add: parse_swmm_results_def)

lemma stream_error_cases:
  assumes "parse_swmm_results pyfloat nan_order fs rpt_path inp_path = StreamError e"
  shows "(\<exists>ls d. fs rpt_path = Some (Broken ls d)) \<or>
    (\<exists>ls l. fs rpt_path = Some (Lines ls) \<and> l \<in> set ls \<and>
       contains l (ustr ''Continuity Error (%)'') \<and> pyfloat (last (str_split l)) = None \<and>
       e = ValueError (last (str_split l)))"
proof (cases "fs rpt_path")
  case None
  with assms show ?thesis by (simp add: parse_swmm_results_def)
next
  case (Some src)
  show ?thesis
  proof (cases src)
    case (Lines ls)
    with Some assms have "scan pyfloat init_state ls = Inl e"
      by (auto simp: parse_swmm_results_def extract_lines_def split: sum.splits)
    from scan_failure_cases [OF this] Some Lines show ?thesis by blast
  next
    case (Broken ls d)
    with Some show ?thesis by simp
  qed
qed

text \<open>The pass stops at the first continuity line whose last token \<open>float\<close> rejects,
  whatever comes before and after it.\<close>

lemma scan_aborts_at:
  assumes "scan pyfloat s pre = Inr s1"
    and "contains l (ustr ''Continuity Error (%)'')"
    and "pyfloat (last (str_split l)) = None"
  shows "scan pyfloat s (pre @ l # post) = Inl (ValueError (last (str_split l)))"
  using assms by (simp add: scan_append step_label_failure)

section \<open>Runs of the sample reports\<close>



lemma nan_volume_scan:
  "scan float_decimal init_state nan_volume_report =
     Inr \<lparr>continuity_error_runoff = None, continuity_error_routing = None,
          in_flooding_table = True, in_surcharge_table = False,
          flooded_nodes = 
            [\<lparr>node = ustr ''J1'', MaxFloodingRate = Finite 2, TotalFloodVol = Finite (1 / 2)\<rparr>,
             \<lparr>node = ustr ''J2'', MaxFloodingRate = Finite 2, TotalFloodVol = NaN\<rparr>,
             \<lparr>node = ustr ''J3'', MaxFloodingRate = Finite 2, TotalFloodVol = Finite (7 / 10)\<rparr>],
          surcharged_links = []\<rparr>"
  by code_simp

lemma figures_only_scan:
  "scan float_decimal init_state figures_only_report =
     Inr \<lparr>continuity_error_runoff = Some (Finite (- 29 / 1000)), continuity_error_routing = Some (Finite (441 / 1000)),
          in_flooding_table = False, in_surcharge_table = False,
          flooded_nodes = [],
          surcharged_links = []\<rparr>"
  by code_simp

lemma figures_only_markers:
  "list_all (\<lambda>l. \<not> contains l (ustr ''Node Flooding Summary'')) figures_only_report"
  "list_all (\<lambda>l. \<not> contains l (ustr ''Conduit Surcharge Summary'')) figures_only_report"
  by code_simp+

lemma first_flood_section_scan:
  "scan float_decimal init_state first_flood_section =
     Inr \<lparr>continuity_error_runoff = None, continuity_error_routing = None,
          in_flooding_table = False, in_surcharge_table = False,
          flooded_nodes = 
            [\<lparr>node = ustr ''J12'', MaxFloodingRate = Finite (25 / 2), TotalFloodVol = Finite (1 / 4)\<rparr>],
          surcharged_links = []\<rparr>"
  by code_simp

lemma two_flood_sections_scan:
  "scan float_decimal init_state
     (first_flood_section @ flood_marker_line # (flood_header_line # second_flood_rows)
        @ [blank_line]) =
     Inr \<lparr>continuity_error_runoff = None, continuity_error_routing = None,
          in_flooding_table = False, in_surcharge_table = False,
          flooded_nodes = 
            [\<lparr>node = ustr ''J12'', MaxFloodingRate = Finite (25 / 2), TotalFloodVol = Finite (1 / 4)\<rparr>,
             \<lparr>node = ustr ''J44'', MaxFloodingRate = Finite (73 / 4), TotalFloodVol = Finite (4 / 5)\<rparr>,
             \<lparr>node = ustr ''J45'', MaxFloodingRate = Finite (3 / 2), TotalFloodVol = Finite (1 / 8)\<rparr>],
          surcharged_links = []\<rparr>"
  by code_simp

lemma second_flood_rows_data:
  "list_all (flood_data_line float_decimal) second_flood_rows"
  "map (flood_record float_decimal) second_flood_rows =
     [\<lparr>node = ustr ''J44'', MaxFloodingRate = Finite (73 / 4), TotalFloodVol = Finite (4 / 5)\<rparr>,
      \<lparr>node = ustr ''J45'', MaxFloodingRate = Finite (3 / 2), TotalFloodVol = Finite (1 / 8)\<rparr>]"
  by code_simp+

lemma second_flood_section_rows:
  "list_all keeps_flooding_open (flood_header_line # second_flood_rows)"
  "flood_rows_in float_decimal (flood_header_line # second_flood_rows) =
     [\<lparr>node = ustr ''J44'', MaxFloodingRate = Finite (73 / 4), TotalFloodVol = Finite (4 / 5)\<rparr>,
      \<lparr>node = ustr ''J45'', MaxFloodingRate = Finite (3 / 2), TotalFloodVol = Finite (1 / 8)\<rparr>]"
  by code_simp+

lemma first_surcharge_section_scan:
  "scan float_decimal init_state first_surcharge_section =
     Inr \<lparr>continuity_error_runoff = None, continuity_error_routing = None,
          in_flooding_table = False, in_surcharge_table = False,
          flooded_nodes = [],
          surcharged_links = 
            [\<lparr>link = ustr ''C1'', HoursSurcharged = Finite (3 / 2), HoursAboveFullNormal = Finite (3 / 2)\<rparr>]\<rparr>"
  by code_simp

lemma two_surcharge_sections_scan:
  "scan float_decimal init_state
     (first_surcharge_section @ surcharge_marker_line
        # (surcharge_header_line # second_surcharge_rows) @ [blank_line]) =
     Inr \<lparr>continuity_error_runoff = None, continuity_error_routing = None,
          in_flooding_table = False, in_surcharge_table = False,
          flooded_nodes = [],
          surcharged_links = 
            [\<lparr>link = ustr ''C1'', HoursSurcharged = Finite (3 / 2), HoursAboveFullNormal = Finite (3 / 2)\<rparr>,
             \<lparr>link = ustr ''C2'', HoursSurcharged = Finite 4, HoursAboveFullNormal = Finite 4\<rparr>]\<rparr>"
  by code_simp

lemma second_surcharge_section_rows:
  "list_all keeps_surcharge_open (surcharge_header_line # second_surcharge_rows)"
  "surcharge_rows_in float_decimal (surcharge_header_line # second_surcharge_rows) =
     [\<lparr>link = ustr ''C2'', HoursSurcharged = Finite 4, HoursAboveFullNormal = Finite 4\<rparr>]"
  by code_simp+

lemma marker_lines:
  "contains flood_marker_line (ustr ''Node Flooding Summary'')"
  "contains surcharge_marker_line (ustr ''Conduit Surcharge Summary'')"
  "\<not> contains surcharge_marker_line (ustr ''Node Flooding Summary'')"
  by code_simp+

lemma flood_data_row_tokens:
  "str_split flood_data_row
     = [ustr ''J12'', ustr ''5.00'', ustr ''12.5'', ustr ''0'', ustr ''0'', ustr ''0.250'']"
  "\<not> contains flood_data_row (ustr ''Node Flooding Summary'')"
  "continuity_step float_decimal in_flood_table_state flood_data_row = Inr in_flood_table_state"
  "digit_token (ustr ''5.00'')"
  "float_decimal (ustr ''12.5'') = Some (Finite (25 / 2))"
  "float_decimal (ustr ''0.250'') = Some (Finite (1 / 4))"
  "ustr ''J12'' \<noteq> ustr ''Node''"
  by code_simp+

lemma shared_data_row_tokens:
  "str_split shared_data_row
     = [ustr ''X7'', ustr ''1.50'', ustr ''2.25'', ustr ''0.75'', ustr ''0'', ustr ''4.5'']"
  "\<not> contains shared_data_row (ustr ''Node Flooding Summary'')"
  "\<not> contains shared_data_row (ustr ''Conduit Surcharge Summary'')"
  "\<not> contains shared_data_row (ustr ''Continuity Error (%)'')"
  "nonneg_decimal (ustr ''1.50'')"
  "float_decimal (ustr ''1.50'') = Some (Finite (3 / 2))"
  "float_decimal (ustr ''2.25'') = Some (Finite (9 / 4))"
  "float_decimal (ustr ''0.75'') = Some (Finite (3 / 4))"
  "float_decimal (ustr ''4.5'') = Some (Finite (9 / 2))"
  "ustr ''X7'' \<noteq> ustr ''Node''"
  "ustr ''X7'' \<noteq> ustr ''Conduit''"
  by code_simp+

lemma blank_header_rows_scan:
  "scan float_decimal in_flood_table_state (blank_line # flood_header_line # second_flood_rows) =
     Inr \<lparr>continuity_error_runoff = None, continuity_error_routing = None,
          in_flooding_table = True, in_surcharge_table = False,
          flooded_nodes =
            [\<lparr>node = ustr ''J44'', MaxFloodingRate = Finite (73 / 4), TotalFloodVol = Finite (4 / 5)\<rparr>,
             \<lparr>node = ustr ''J45'', MaxFloodingRate = Finite (3 / 2), TotalFloodVol = Finite (1 / 8)\<rparr>],
          surcharged_links = []\<rparr>"
  by code_simp

section \<open>The claims\<close>

subsection \<open>C1: a continuity line whose last token is no number\<close>

text \<open>
  C1 says that a line holding the label \<open>Continuity Error (%)\<close> whose last token does not
  parse as a float is skipped, and that no such line makes the invocation return a failure.
  The code calls \<open>float(parts[-1])\<close> outside any \<open>try\<close> of its own, unlike the two row
  extractors, so the \<open>ValueError\<close> reaches the handler around the whole pass
  (\<open>scan_aborts_at\<close>). The report \<open>model.rpt\<close> whose only line is
  \<open>Continuity Error (%) ..... n/a\<close> gives the error dictionary, not a result.
\<close>

theorem malformed_figure_aborts:
  "parse_swmm_results float_decimal file_order (single_report malformed_figure_report)
     (ustr ''model.rpt'') None
   = StreamError (ValueError (ustr ''n/a''))"
  by code_simp

subsection \<open>C2: the first two continuity values\<close>

text \<open>
  C2 says that, for every input, among the label lines whose last token parses as a float the
  first value is the runoff figure and the second the routing figure. On a pass that
  completes this is \<open>scan_first_two_figures\<close>. In the report below a label line that does
  not parse comes first: the values C2 speaks of are \<open>-0.029\<close> and \<open>0.441\<close>, and the code
  returns the error dictionary, with no figure at all.
\<close>

theorem unparsed_figure_loses_later_figures:
  "label_values float_decimal skipped_figure_report
     = [Finite (- 29 / 1000), Finite (441 / 1000)] \<and>
   parse_swmm_results float_decimal file_order (single_report skipped_figure_report)
     (ustr ''model.rpt'') None
   = StreamError (ValueError (ustr ''n/a''))"
  by code_simp

subsection \<open>C3: the two ranked lists\<close>




subsection \<open>C4: a category with no accepted row\<close>

text \<open>
  C4 says that a category with no accepted row is returned as an empty sequence and not as
  null. Counterexample to C4: for the report of two continuity lines and no table marker the
  pass completes, both figures are set, and \<open>top_flooded_nodes\<close> and
  \<open>top_surcharged_conduits\<close> are \<open>None\<close>, which is not the empty sequence.
\<close>

theorem empty_category_is_None:
  "parse_swmm_results float_decimal file_order (single_report figures_only_report)
     (ustr ''model.rpt'') None =
     Success \<lparr>continuity_error_runoff_percent = Some (Finite (- 29 / 1000)),
          continuity_error_routing_percent = Some (Finite (441 / 1000)),
          top_flooded_nodes = None, top_surcharged_conduits = None,
          raw_flooded_list = [], raw_surcharged_list = []\<rparr>
   \<and> (None :: float_value flood_rec list option) \<noteq> Some []
   \<and> (None :: float_value surcharge_rec list option) \<noteq> Some []"
  by code_simp

text \<open>
  C4 as amended: when the pass completes, a category with no accepted row has its data frame
  (\<open>top_flooded_nodes\<close>, \<open>top_surcharged_conduits\<close>) equal to \<open>None\<close> and its raw list
  (\<open>raw_flooded_list\<close>, \<open>raw_surcharged_list\<close>) empty; a report without a table's marker
  has no accepted row for that table; and the two figures are the first two values of the
  continuity lines.
\<close>

theorem empty_categories:
  assumes "scan pyfloat init_state lines = Inr s"
  shows "extract_lines pyfloat nan_order lines = Inr (finish nan_order s) \<and>
    (flooded_nodes s = [] \<longrightarrow>
       top_flooded_nodes (finish nan_order s) = None \<and> raw_flooded_list (finish nan_order s) = []) \<and>
    (surcharged_links s = [] \<longrightarrow>
       top_surcharged_conduits (finish nan_order s) = None \<and>
       raw_surcharged_list (finish nan_order s) = []) \<and>
    (list_all (\<lambda>l. \<not> contains l (ustr ''Node Flooding Summary'')) lines \<longrightarrow> flooded_nodes s = []) \<and>
    (list_all (\<lambda>l. \<not> contains l (ustr ''Conduit Surcharge Summary'')) lines \<longrightarrow> surcharged_links s = []) \<and>
    continuity_error_runoff_percent (finish nan_order s) = nth_opt (label_values pyfloat lines) 0 \<and>
    continuity_error_routing_percent (finish nan_order s) = nth_opt (label_values pyfloat lines) 1"
proof (intro conjI impI)
  show "extract_lines pyfloat nan_order lines = Inr (finish nan_order s)"
    using assms by (simp add: extract_lines_def)
  show "top_flooded_nodes (finish nan_order s) = None" if "flooded_nodes s = []"
    using that by (simp add: finish_def Let_def)
  show "raw_flooded_list (finish nan_order s) = []" if "flooded_nodes s = []"
    using that by (simp add: finish_def Let_def)
  show "top_surcharged_conduits (finish nan_order s) = None" if "surcharged_links s = []"
    using that by (simp add: finish_def Let_def)
  show "raw_surcharged_list (finish nan_order s) = []" if "surcharged_links s = []"
    using that by (simp add: finish_def Let_def)
  show "flooded_nodes s = []"
    if "list_all (\<lambda>l. \<not> contains l (ustr ''Node Flooding Summary'')) lines"
    using no_flood_marker_no_rows [OF that assms] by (simp add: init_state_def)
  show "surcharged_links s = []"
    if "list_all (\<lambda>l. \<not> contains l (ustr ''Conduit Surcharge Summary'')) lines"
    using no_surcharge_marker_no_rows [OF that assms] by (simp add: init_state_def)
  show "continuity_error_runoff_percent (finish nan_order s) = nth_opt (label_values pyfloat lines) 0"
    using scan_first_two_figures(1) [OF assms] by (simp add: finish_def Let_def)
  show "continuity_error_routing_percent (finish nan_order s) = nth_opt (label_values pyfloat lines) 1"
    using scan_first_two_figures(2) [OF assms] by (simp add: finish_def Let_def)
qed

text \<open>Witness for the amended C4: the report of two continuity lines.\<close>

theorem empty_categories_witness:
  "\<exists>s. scan float_decimal init_state figures_only_report = Inr s \<and>
     list_all (\<lambda>l. \<not> contains l (ustr ''Node Flooding Summary'')) figures_only_report \<and>
     list_all (\<lambda>l. \<not> contains l (ustr ''Conduit Surcharge Summary'')) figures_only_report \<and>
     flooded_nodes s = [] \<and> surcharged_links s = [] \<and>
     top_flooded_nodes (finish file_order s) = None \<and> raw_flooded_list (finish file_order s) = [] \<and>
     top_surcharged_conduits (finish file_order s) = None \<and>
     raw_surcharged_list (finish file_order s) = [] \<and>
     continuity_error_runoff_percent (finish file_order s) = Some (Finite (- 29 / 1000)) \<and>
     continuity_error_routing_percent (finish file_order s) = Some (Finite (441 / 1000))"
proof -
  obtain s where s: "scan float_decimal init_state figures_only_report = Inr s"
    and r: "continuity_error_runoff s = Some (Finite (- 29 / 1000))"
           "continuity_error_routing s = Some (Finite (441 / 1000))"
    using figures_only_scan by auto
  have "continuity_error_runoff_percent (finish file_order s) = Some (Finite (- 29 / 1000))"
       "continuity_error_routing_percent (finish file_order s) = Some (Finite (441 / 1000))"
    using r by (simp_all add: finish_def Let_def)
  with empty_categories [OF s, of file_order] figures_only_markers show ?thesis
    using s by blast
qed

subsection \<open>C5: acceptance of a flooding row\<close>

text \<open>
  C5 says that in the flooding table a line is accepted exactly when it has at least 6
  tokens, token 1 is a non-negative decimal number, token 0 is not \<open>Node\<close>, and tokens 2 and
  5 parse as floats. Counterexample to C5, in both directions. After the marker line the pass
  is in the flooding table, and the line \<open>N1 1.0 2.0 0 0 3.0 Node Flooding Summary\<close> meets
  all of these conditions and is not accepted, because a line that holds the marker text is
  consumed as a marker: the step leaves the state as it was, with no row. And the line whose
  tokens are \<open>J1\<close>, the superscript two, \<open>12.5\<close>, \<open>0\<close>, \<open>0\<close>, \<open>0.250\<close> is accepted,
  although its token 1 is no decimal number and \<open>float\<close> rejects it: the code tests token 1
  with \<open>str.isdigit\<close>, for which the superscript two is a digit, and never converts it.
\<close>

theorem flood_row_conditions_differ:
  "scan float_decimal init_state [marker_row_report ! 0] = Inr in_flood_table_state \<and>
   in_flooding_table in_flood_table_state \<and>
   str_split (marker_row_report ! 1)
     = [ustr ''N1'', ustr ''1.0'', ustr ''2.0'', ustr ''0'', ustr ''0'', ustr ''3.0'',
        ustr ''Node'', ustr ''Flooding'', ustr ''Summary''] \<and>
   nonneg_decimal (ustr ''1.0'') \<and> float_decimal (ustr ''2.0'') = Some (Finite 2) \<and>
   float_decimal (ustr ''3.0'') = Some (Finite 3) \<and>
   step float_decimal in_flood_table_state (marker_row_report ! 1) = Inr in_flood_table_state \<and>
   flooded_nodes in_flood_table_state = [] \<and>
   scan float_decimal init_state marker_row_report = Inr in_flood_table_state \<and>
   str_split superscript_row
     = [ustr ''J1'', [0xB2], ustr ''12.5'', ustr ''0'', ustr ''0'', ustr ''0.250''] \<and>
   \<not> nonneg_decimal [0xB2] \<and> float_decimal [0xB2] = None \<and>
   step float_decimal in_flood_table_state superscript_row
     = Inr (in_flood_table_state\<lparr>flooded_nodes :=
              [\<lparr>node = ustr ''J1'', MaxFloodingRate = Finite (25 / 2), TotalFloodVol = Finite (1 / 4)\<rparr>]\<rparr>)"
  by code_simp

text \<open>
  C5 as amended: in the flooding table, a line that does not hold the text
  \<open>Node Flooding Summary\<close>, and on which the continuity step raises nothing, never ends the
  pass, and it is accepted exactly when it has at least 6 tokens, token 1 is made of digits
  with at most one full stop among them and at least one digit, a digit being any character
  for which \<open>str.isdigit\<close> holds, token 0 is not \<open>Node\<close>, and tokens 2 and 5 parse as
  floats; the accepted record has token 0 as node, the float of token 2 as peak rate and the
  float of token 5 as total volume, and a line that is not accepted leaves the rows as they
  were. The tokens are those of \<open>str.split\<close>.
\<close>

theorem flood_row_acceptance:
  assumes "in_flooding_table s"
    and "\<not> contains line (ustr ''Node Flooding Summary'')"
    and "continuity_step pyfloat s line = Inr s1"
  shows "\<exists>s'. step pyfloat s line = Inr s' \<and>
     (let t = str_split line in
      if 6 \<le> length t \<and> digit_token (t ! 1) \<and> t ! 0 \<noteq> ustr ''Node''
           \<and> pyfloat (t ! 2) \<noteq> None \<and> pyfloat (t ! 5) \<noteq> None
      then flooded_nodes s' = flooded_nodes s @
             [\<lparr>node = t ! 0, MaxFloodingRate = the (pyfloat (t ! 2)),
               TotalFloodVol = the (pyfloat (t ! 5))\<rparr>]
      else flooded_nodes s' = flooded_nodes s)"
proof -
  have st: "step pyfloat s line = Inr (table_step pyfloat s1 line)"
    using assms(3) by (simp add: step_def)
  have fl: "flooded_nodes (table_step pyfloat s1 line) =
      flooded_nodes s @ opt_list (flood_row pyfloat (str_split line))"
    using step_flooded [OF st] assms(1,2) by simp
  have "opt_list (flood_row pyfloat t) =
      (if 6 \<le> length t \<and> digit_token (t ! 1) \<and> t ! 0 \<noteq> ustr ''Node''
           \<and> pyfloat (t ! 2) \<noteq> None \<and> pyfloat (t ! 5) \<noteq> None
       then [\<lparr>node = t ! 0, MaxFloodingRate = the (pyfloat (t ! 2)),
               TotalFloodVol = the (pyfloat (t ! 5))\<rparr>]
       else [])" for t
    by (auto simp: flood_row_def opt_list_def numeric_token_digits split: option.splits)
  with st fl show ?thesis by (simp add: Let_def)
qed

text \<open>Witness for the amended C5: a data row read in the flooding table.\<close>

theorem flood_row_acceptance_witness:
  "in_flooding_table in_flood_table_state \<and>
   \<not> contains flood_data_row (ustr ''Node Flooding Summary'') \<and>
   continuity_step float_decimal in_flood_table_state flood_data_row = Inr in_flood_table_state \<and>
   (\<exists>s'. step float_decimal in_flood_table_state flood_data_row = Inr s' \<and>
      flooded_nodes s' = [\<lparr>node = ustr ''J12'', MaxFloodingRate = Finite (25 / 2), TotalFloodVol = Finite (1 / 4)\<rparr>])"
proof -
  have a: "in_flooding_table in_flood_table_state" by (simp add: in_flood_table_state_def)
  note b = flood_data_row_tokens(2) and c = flood_data_row_tokens(3)
  have f: "flooded_nodes in_flood_table_state = []"
    by (simp add: in_flood_table_state_def init_state_def)
  from flood_row_acceptance [OF a b c] show ?thesis
    using a b c
    by (simp add: flood_data_row_tokens(1,4,5,6,7) f Let_def del: not_None_eq)
qed

subsection \<open>C6: blank lines\<close>

text \<open>
  C6: a blank line (\<open>line.strip()\<close> is empty) never ends the pass and changes no list of
  rows. After it the flooding table is still open exactly when it was open and no flooding
  row had been accepted; the surcharge table is still open exactly when it was open and
  either no surcharge row had been accepted or the blank line has just closed the flooding
  table (the flooding block then ends the iteration with \<open>continue\<close>); and a blank line
  opens no table. So a table is left on a blank line only when its list has a row, and the
  data lines that follow a blank line met in an open table with no row yet are all
  collected: a block of data lines right after the blank line is read without failure and
  gives exactly its records; and when other lines that do not close the table (column
  headers, rows that are rejected) stand among the lines that follow, and the pass over them
  completes, the table is still open after them and its list holds exactly the rows that the
  extractor accepts among them. The rows accumulated for a table are the rows of its list
  (\<open>len(flooded_nodes)\<close>, \<open>len(surcharged_links)\<close>); a blank line is a line of white
  space in the sense of \<open>str.strip\<close>, the no-break space and the other Unicode spaces
  included.
\<close>

theorem blank_line_guard:
  assumes "str_strip line = []"
  shows "(\<exists>s'. step pyfloat s line = Inr s' \<and>
            flooded_nodes s' = flooded_nodes s \<and> surcharged_links s' = surcharged_links s \<and>
            (in_flooding_table s' \<longleftrightarrow> in_flooding_table s \<and> flooded_nodes s = []) \<and>
            (in_surcharge_table s' \<longleftrightarrow>
               in_surcharge_table s \<and>
               (surcharged_links s = [] \<or> in_flooding_table s \<and> flooded_nodes s \<noteq> []))) \<and>
         (\<forall>rows. in_flooding_table s \<and> flooded_nodes s = [] \<and>
              list_all (flood_data_line pyfloat) rows \<longrightarrow>
            (\<exists>s''. scan pyfloat s (line # rows) = Inr s'' \<and>
                   flooded_nodes s'' = map (flood_record pyfloat) rows)) \<and>
         (\<forall>rows. in_surcharge_table s \<and> surcharged_links s = [] \<and>
              list_all (surcharge_data_line pyfloat) rows \<longrightarrow>
            (\<exists>s''. scan pyfloat s (line # rows) = Inr s'' \<and>
                   surcharged_links s'' = map (surcharge_record pyfloat) rows)) \<and>
         (\<forall>body s''. in_flooding_table s \<and> flooded_nodes s = [] \<and>
              list_all keeps_flooding_open body \<and>
              scan pyfloat s (line # body) = Inr s'' \<longrightarrow>
            in_flooding_table s'' \<and> flooded_nodes s'' = flood_rows_in pyfloat body) \<and>
         (\<forall>body s''. in_surcharge_table s \<and> surcharged_links s = [] \<and>
              list_all keeps_surcharge_open body \<and>
              scan pyfloat s (line # body) = Inr s'' \<longrightarrow>
            in_surcharge_table s'' \<and> surcharged_links s'' = surcharge_rows_in pyfloat body)"
proof -
  have blank: "\<forall>c\<in>set line. isspace c" using assms by (simp add: strip_empty_iff)
  define s' where "s' = table_step pyfloat s line"
  have st: "step pyfloat s line = Inr s'"
    using blank_no_label [OF blank] by (simp add: step_no_label s'_def)
  have s'_eq: "s' =
     (if in_flooding_table s \<and> flooded_nodes s \<noteq> [] then s\<lparr>in_flooding_table := False\<rparr>
      else if in_surcharge_table s \<and> surcharged_links s \<noteq> [] then s\<lparr>in_surcharge_table := False\<rparr>
      else s)"
    unfolding s'_def by (rule table_step_blank [OF blank])
  have lists: "flooded_nodes s' = flooded_nodes s" "surcharged_links s' = surcharged_links s"
    by (simp_all add: s'_eq)
  have fl: "in_flooding_table s' \<longleftrightarrow> in_flooding_table s \<and> flooded_nodes s = []"
    by (auto simp: s'_eq)
  have su: "in_surcharge_table s' \<longleftrightarrow>
               in_surcharge_table s \<and>
               (surcharged_links s = [] \<or> in_flooding_table s \<and> flooded_nodes s \<noteq> [])"
    by (auto simp: s'_eq)
  have rows_f: "\<exists>s''. scan pyfloat s (line # rows) = Inr s'' \<and>
                   flooded_nodes s'' = map (flood_record pyfloat) rows"
    if h: "in_flooding_table s \<and> flooded_nodes s = [] \<and>
           list_all (flood_data_line pyfloat) rows" for rows
  proof -
    have "in_flooding_table s'" using h fl by simp
    from scan_flood_rows [OF this, of pyfloat rows] h lists st show ?thesis by auto
  qed
  have rows_s: "\<exists>s''. scan pyfloat s (line # rows) = Inr s'' \<and>
                   surcharged_links s'' = map (surcharge_record pyfloat) rows"
    if h: "in_surcharge_table s \<and> surcharged_links s = [] \<and>
           list_all (surcharge_data_line pyfloat) rows" for rows
  proof -
    have "in_surcharge_table s'" using h su by simp
    from scan_surcharge_rows [OF this, of pyfloat rows] h lists st show ?thesis by auto
  qed
  have body_f: "in_flooding_table s'' \<and> flooded_nodes s'' = flood_rows_in pyfloat body"
    if h: "in_flooding_table s \<and> flooded_nodes s = [] \<and> list_all keeps_flooding_open body \<and>
           scan pyfloat s (line # body) = Inr s''" for body s''
  proof -
    have o: "in_flooding_table s'" using h fl by simp
    have sc: "scan pyfloat s' body = Inr s''" using h st by simp
    from scan_open_flooding [OF o _ sc] h lists show ?thesis by simp
  qed
  have body_s: "in_surcharge_table s'' \<and> surcharged_links s'' = surcharge_rows_in pyfloat body"
    if h: "in_surcharge_table s \<and> surcharged_links s = [] \<and> list_all keeps_surcharge_open body \<and>
           scan pyfloat s (line # body) = Inr s''" for body s''
  proof -
    have o: "in_surcharge_table s'" using h su by simp
    have sc: "scan pyfloat s' body = Inr s''" using h st by simp
    from scan_open_surcharge [OF o _ sc] h lists show ?thesis by simp
  qed
  have first: "\<exists>s'. step pyfloat s line = Inr s' \<and>
            flooded_nodes s' = flooded_nodes s \<and> surcharged_links s' = surcharged_links s \<and>
            (in_flooding_table s' \<longleftrightarrow> in_flooding_table s \<and> flooded_nodes s = []) \<and>
            (in_surcharge_table s' \<longleftrightarrow>
               in_surcharge_table s \<and>
               (surcharged_links s = [] \<or> in_flooding_table s \<and> flooded_nodes s \<noteq> []))"
    using st lists fl su by blast
  show ?thesis
    using first rows_f rows_s body_f body_s by (intro conjI allI impI) blast+
qed

text \<open>Witness for C6: a blank line of blanks and a no-break space, in the flooding table
  before any row, then two data rows.\<close>

theorem blank_line_guard_witness:
  "str_strip blank_line = [] \<and>
   in_flooding_table in_flood_table_state \<and> flooded_nodes in_flood_table_state = [] \<and>
   list_all (flood_data_line float_decimal) second_flood_rows \<and>
   (\<exists>s'. step float_decimal in_flood_table_state blank_line = Inr s' \<and> in_flooding_table s') \<and>
   (\<exists>s''. scan float_decimal in_flood_table_state (blank_line # second_flood_rows) = Inr s'' \<and>
          flooded_nodes s'' =
            [\<lparr>node = ustr ''J44'', MaxFloodingRate = Finite (73 / 4), TotalFloodVol = Finite (4 / 5)\<rparr>,
             \<lparr>node = ustr ''J45'', MaxFloodingRate = Finite (3 / 2), TotalFloodVol = Finite (1 / 8)\<rparr>]) \<and>
   list_all keeps_flooding_open (flood_header_line # second_flood_rows) \<and>
   (\<exists>s''. scan float_decimal in_flood_table_state
            (blank_line # flood_header_line # second_flood_rows) = Inr s'' \<and>
          in_flooding_table s'' \<and>
          flooded_nodes s'' =
            [\<lparr>node = ustr ''J44'', MaxFloodingRate = Finite (73 / 4), TotalFloodVol = Finite (4 / 5)\<rparr>,
             \<lparr>node = ustr ''J45'', MaxFloodingRate = Finite (3 / 2), TotalFloodVol = Finite (1 / 8)\<rparr>])"
proof -
  have a: "str_strip blank_line = []" by code_simp
  have b: "in_flooding_table in_flood_table_state" "flooded_nodes in_flood_table_state = []"
    by (simp_all add: in_flood_table_state_def init_state_def)
  note g = blank_line_guard [OF a, of float_decimal in_flood_table_state]
  from g obtain s' where st: "step float_decimal in_flood_table_state blank_line = Inr s'"
    and fl: "in_flooding_table s' \<longleftrightarrow>
               in_flooding_table in_flood_table_state \<and> flooded_nodes in_flood_table_state = []"
    by blast
  have open_after: "in_flooding_table s'" using fl b by simp
  from g b second_flood_rows_data(1) obtain s'' where
    sc: "scan float_decimal in_flood_table_state (blank_line # second_flood_rows) = Inr s''"
    and rows: "flooded_nodes s'' = map (flood_record float_decimal) second_flood_rows"
    by blast
  from rows have "flooded_nodes s'' =
      [\<lparr>node = ustr ''J44'', MaxFloodingRate = Finite (73 / 4), TotalFloodVol = Finite (4 / 5)\<rparr>,
       \<lparr>node = ustr ''J45'', MaxFloodingRate = Finite (3 / 2), TotalFloodVol = Finite (1 / 8)\<rparr>]"
    unfolding second_flood_rows_data(2) .
  with a b second_flood_rows_data(1) st open_after sc
  have direct: "str_strip blank_line = [] \<and>
   in_flooding_table in_flood_table_state \<and> flooded_nodes in_flood_table_state = [] \<and>
   list_all (flood_data_line float_decimal) second_flood_rows \<and>
   (\<exists>s'. step float_decimal in_flood_table_state blank_line = Inr s' \<and> in_flooding_table s') \<and>
   (\<exists>s''. scan float_decimal in_flood_table_state (blank_line # second_flood_rows) = Inr s'' \<and>
          flooded_nodes s'' =
            [\<lparr>node = ustr ''J44'', MaxFloodingRate = Finite (73 / 4), TotalFloodVol = Finite (4 / 5)\<rparr>,
             \<lparr>node = ustr ''J45'', MaxFloodingRate = Finite (3 / 2), TotalFloodVol = Finite (1 / 8)\<rparr>])"
    by blast
  from g b second_flood_section_rows(1) blank_header_rows_scan
  have "in_flooding_table 
           \<lparr>continuity_error_runoff = None, continuity_error_routing = None,
             in_flooding_table = True, in_surcharge_table = False,
             flooded_nodes =
               [\<lparr>node = ustr ''J44'', MaxFloodingRate = Finite (73 / 4), TotalFloodVol = Finite (4 / 5)\<rparr>,
                \<lparr>node = ustr ''J45'', MaxFloodingRate = Finite (3 / 2), TotalFloodVol = Finite (1 / 8)\<rparr>],
             surcharged_links = []\<rparr> \<and>
        flooded_nodes 
           \<lparr>continuity_error_runoff = None, continuity_error_routing = None,
             in_flooding_table = True, in_surcharge_table = False,
             flooded_nodes =
               [\<lparr>node = ustr ''J44'', MaxFloodingRate = Finite (73 / 4), TotalFloodVol = Finite (4 / 5)\<rparr>,
                \<lparr>node = ustr ''J45'', MaxFloodingRate = Finite (3 / 2), TotalFloodVol = Finite (1 / 8)\<rparr>],
             surcharged_links = []\<rparr>
          = flood_rows_in float_decimal (flood_header_line # second_flood_rows)"
    by blast
  then have headed: "\<exists>s''. scan float_decimal in_flood_table_state
            (blank_line # flood_header_line # second_flood_rows) = Inr s'' \<and>
          in_flooding_table s'' \<and>
          flooded_nodes s'' =
            [\<lparr>node = ustr ''J44'', MaxFloodingRate = Finite (73 / 4), TotalFloodVol = Finite (4 / 5)\<rparr>,
             \<lparr>node = ustr ''J45'', MaxFloodingRate = Finite (3 / 2), TotalFloodVol = Finite (1 / 8)\<rparr>]"
    unfolding blank_header_rows_scan second_flood_section_rows(2) by simp
  from direct second_flood_section_rows(1) headed show ?thesis by simp
qed

subsection \<open>C7: a marker seen again\<close>

text \<open>
  C7 says that when a table's marker is seen a second time the accumulator is not reset, the
  valid data rows of the second section are appended to the same collection, and the rows
  of both sections are in the final list. Counterexample to C7: in the report below the
  flooding marker occurs twice, and the second occurrence is followed by a blank line and
  then by two lines that are data rows of the flooding table. The blank line closes the
  table at once, because the list already holds the row of the first section, so the two
  rows of the second section are not collected: the final list holds the row J12 alone.
\<close>

theorem rows_after_blank_not_collected:
  "contains (first_flood_section ! 0) (ustr ''Node Flooding Summary'') \<and>
   contains flood_marker_line (ustr ''Node Flooding Summary'') \<and>
   str_strip blank_line = [] \<and>
   list_all (flood_data_line float_decimal) second_flood_rows \<and>
   scan float_decimal init_state
     (first_flood_section @ flood_marker_line # blank_line # second_flood_rows)
   = Inr \<lparr>continuity_error_runoff = None, continuity_error_routing = None,
          in_flooding_table = False, in_surcharge_table = False,
          flooded_nodes =
            [\<lparr>node = ustr ''J12'', MaxFloodingRate = Finite (25 / 2), TotalFloodVol = Finite (1 / 4)\<rparr>],
          surcharged_links = []\<rparr>"
  by code_simp

text \<open>
  C7 as amended: take a pass that completes and any occurrence of a table's marker in it, in
  particular the second; \<open>pre\<close> are the lines before the marker line, \<open>body\<close> the lines
  that follow it up to some line before the first line that closes the table (a blank line,
  and for the flooding table also a line that holds the surcharge marker), and \<open>rest\<close> the
  remaining lines. The rows accepted in \<open>pre\<close> stay, in order, at the head of the final
  list. The step on the marker line opens the table and leaves the table's list as it was.
  After \<open>body\<close> the table is still open and its list is the list before the marker
  followed by the rows that the table's extractor accepts among the lines of \<open>body\<close>, in
  file order, whatever other lines (column headers, rows that are rejected) stand between
  them; and this list is an initial part of the final list. This is stated for the flooding
  marker and for the surcharge marker.
\<close>

theorem repeated_marker_keeps_rows:
  assumes "scan pyfloat init_state (pre @ marker # body @ rest) = Inr s_end"
  shows "\<exists>s1 s2 s3. scan pyfloat init_state pre = Inr s1 \<and> step pyfloat s1 marker = Inr s2 \<and>
      scan pyfloat s2 body = Inr s3 \<and> scan pyfloat s3 rest = Inr s_end \<and>
      prefix (flooded_nodes s1) (flooded_nodes s_end) \<and>
      prefix (surcharged_links s1) (surcharged_links s_end) \<and>
      (contains marker (ustr ''Node Flooding Summary'') \<and> list_all keeps_flooding_open body \<longrightarrow>
         in_flooding_table s2 \<and> flooded_nodes s2 = flooded_nodes s1 \<and>
         in_flooding_table s3 \<and>
         flooded_nodes s3 = flooded_nodes s1 @ flood_rows_in pyfloat body \<and>
         prefix (flooded_nodes s1 @ flood_rows_in pyfloat body) (flooded_nodes s_end)) \<and>
      (contains marker (ustr ''Conduit Surcharge Summary'') \<and>
       \<not> contains marker (ustr ''Node Flooding Summary'') \<and> list_all keeps_surcharge_open body \<longrightarrow>
         in_surcharge_table s2 \<and> surcharged_links s2 = surcharged_links s1 \<and>
         in_surcharge_table s3 \<and>
         surcharged_links s3 = surcharged_links s1 @ surcharge_rows_in pyfloat body \<and>
         prefix (surcharged_links s1 @ surcharge_rows_in pyfloat body) (surcharged_links s_end))"
proof -
  from assms obtain s1 where s1: "scan pyfloat init_state pre = Inr s1"
    and after: "scan pyfloat s1 (marker # body @ rest) = Inr s_end"
    by (auto simp: scan_append split: sum.splits)
  from after obtain s2 where s2: "step pyfloat s1 marker = Inr s2"
    and post: "scan pyfloat s2 (body @ rest) = Inr s_end"
    by (auto split: sum.splits)
  from post obtain s3 where s3: "scan pyfloat s2 body = Inr s3"
    and rest: "scan pyfloat s3 rest = Inr s_end"
    by (auto simp: scan_append split: sum.splits)
  obtain s0 where c: "continuity_step pyfloat s1 marker = Inr s0"
    and t: "s2 = table_step pyfloat s0 marker"
    using step_Inr [OF s2] by blast
  have p1: "prefix (flooded_nodes s1) (flooded_nodes s_end)"
    using scan_flooded_prefix [OF after] .
  have p2: "prefix (surcharged_links s1) (surcharged_links s_end)"
    using scan_surcharged_prefix [OF after] .
  have flood: "in_flooding_table s2 \<and> flooded_nodes s2 = flooded_nodes s1 \<and>
         in_flooding_table s3 \<and>
         flooded_nodes s3 = flooded_nodes s1 @ flood_rows_in pyfloat body \<and>
         prefix (flooded_nodes s1 @ flood_rows_in pyfloat body) (flooded_nodes s_end)"
    if m: "contains marker (ustr ''Node Flooding Summary'') \<and> list_all keeps_flooding_open body"
  proof -
    have a: "in_flooding_table s2" using m by (simp add: t table_step_flood_marker)
    have b: "flooded_nodes s2 = flooded_nodes s1" using step_flooded [OF s2] m by simp
    from scan_open_flooding [OF a _ s3] m have d: "in_flooding_table s3"
      "flooded_nodes s3 = flooded_nodes s1 @ flood_rows_in pyfloat body"
      by (simp_all add: b)
    from scan_flooded_prefix [OF rest] d(2)
    have "prefix (flooded_nodes s1 @ flood_rows_in pyfloat body) (flooded_nodes s_end)" by simp
    with a b d show ?thesis by simp
  qed
  have surch: "in_surcharge_table s2 \<and> surcharged_links s2 = surcharged_links s1 \<and>
         in_surcharge_table s3 \<and>
         surcharged_links s3 = surcharged_links s1 @ surcharge_rows_in pyfloat body \<and>
         prefix (surcharged_links s1 @ surcharge_rows_in pyfloat body) (surcharged_links s_end)"
    if m: "contains marker (ustr ''Conduit Surcharge Summary'') \<and>
           \<not> contains marker (ustr ''Node Flooding Summary'') \<and> list_all keeps_surcharge_open body"
  proof -
    have a: "in_surcharge_table s2"
      using m table_step_surcharge_marker [of marker pyfloat s0] by (simp add: t)
    have b: "surcharged_links s2 = surcharged_links s1" using step_surcharged [OF s2] m by simp
    from scan_open_surcharge [OF a _ s3] m have d: "in_surcharge_table s3"
      "surcharged_links s3 = surcharged_links s1 @ surcharge_rows_in pyfloat body"
      by (simp_all add: b)
    from scan_surcharged_prefix [OF rest] d(2)
    have "prefix (surcharged_links s1 @ surcharge_rows_in pyfloat body) (surcharged_links s_end)"
      by simp
    with a b d show ?thesis by simp
  qed
  from s1 s2 s3 rest p1 p2 flood surch show ?thesis by blast
qed

text \<open>Witness for the amended C7: a flooding section with one row and its closing blank
  line, then the marker again, a column header, two more rows and a blank line; the final
  list holds the row of the first section and then the two rows of the second. The same with
  two surcharge sections.\<close>

theorem repeated_marker_keeps_rows_witness:
  "(\<exists>s1 s_end.
     scan float_decimal init_state
       (first_flood_section @ flood_marker_line # (flood_header_line # second_flood_rows)
          @ [blank_line]) = Inr s_end \<and>
     contains flood_marker_line (ustr ''Node Flooding Summary'') \<and>
     list_all keeps_flooding_open (flood_header_line # second_flood_rows) \<and>
     scan float_decimal init_state first_flood_section = Inr s1 \<and>
     flooded_nodes s1 = [\<lparr>node = ustr ''J12'', MaxFloodingRate = Finite (25 / 2), TotalFloodVol = Finite (1 / 4)\<rparr>] \<and>
     prefix (flooded_nodes s1 @
               [\<lparr>node = ustr ''J44'', MaxFloodingRate = Finite (73 / 4), TotalFloodVol = Finite (4 / 5)\<rparr>,
                \<lparr>node = ustr ''J45'', MaxFloodingRate = Finite (3 / 2), TotalFloodVol = Finite (1 / 8)\<rparr>])
            (flooded_nodes s_end) \<and>
     flooded_nodes s_end =
       [\<lparr>node = ustr ''J12'', MaxFloodingRate = Finite (25 / 2), TotalFloodVol = Finite (1 / 4)\<rparr>,
        \<lparr>node = ustr ''J44'', MaxFloodingRate = Finite (73 / 4), TotalFloodVol = Finite (4 / 5)\<rparr>,
        \<lparr>node = ustr ''J45'', MaxFloodingRate = Finite (3 / 2), TotalFloodVol = Finite (1 / 8)\<rparr>]) \<and>
   (\<exists>s1 s_end.
     scan float_decimal init_state
       (first_surcharge_section @ surcharge_marker_line
          # (surcharge_header_line # second_surcharge_rows) @ [blank_line]) = Inr s_end \<and>
     contains surcharge_marker_line (ustr ''Conduit Surcharge Summary'') \<and>
     \<not> contains surcharge_marker_line (ustr ''Node Flooding Summary'') \<and>
     list_all keeps_surcharge_open (surcharge_header_line # second_surcharge_rows) \<and>
     scan float_decimal init_state first_surcharge_section = Inr s1 \<and>
     surcharged_links s1 = [\<lparr>link = ustr ''C1'', HoursSurcharged = Finite (3 / 2), HoursAboveFullNormal = Finite (3 / 2)\<rparr>] \<and>
     prefix (surcharged_links s1 @ [\<lparr>link = ustr ''C2'', HoursSurcharged = Finite 4, HoursAboveFullNormal = Finite 4\<rparr>])
            (surcharged_links s_end) \<and>
     surcharged_links s_end =
       [\<lparr>link = ustr ''C1'', HoursSurcharged = Finite (3 / 2), HoursAboveFullNormal = Finite (3 / 2)\<rparr>,
        \<lparr>link = ustr ''C2'', HoursSurcharged = Finite 4, HoursAboveFullNormal = Finite 4\<rparr>])"
proof -
  have flood: "\<exists>s1 s_end.
     scan float_decimal init_state
       (first_flood_section @ flood_marker_line # (flood_header_line # second_flood_rows)
          @ [blank_line]) = Inr s_end \<and>
     contains flood_marker_line (ustr ''Node Flooding Summary'') \<and>
     list_all keeps_flooding_open (flood_header_line # second_flood_rows) \<and>
     scan float_decimal init_state first_flood_section = Inr s1 \<and>
     flooded_nodes s1 = [\<lparr>node = ustr ''J12'', MaxFloodingRate = Finite (25 / 2), TotalFloodVol = Finite (1 / 4)\<rparr>] \<and>
     prefix (flooded_nodes s1 @
               [\<lparr>node = ustr ''J44'', MaxFloodingRate = Finite (73 / 4), TotalFloodVol = Finite (4 / 5)\<rparr>,
                \<lparr>node = ustr ''J45'', MaxFloodingRate = Finite (3 / 2), TotalFloodVol = Finite (1 / 8)\<rparr>])
            (flooded_nodes s_end) \<and>
     flooded_nodes s_end =
       [\<lparr>node = ustr ''J12'', MaxFloodingRate = Finite (25 / 2), TotalFloodVol = Finite (1 / 4)\<rparr>,
        \<lparr>node = ustr ''J44'', MaxFloodingRate = Finite (73 / 4), TotalFloodVol = Finite (4 / 5)\<rparr>,
        \<lparr>node = ustr ''J45'', MaxFloodingRate = Finite (3 / 2), TotalFloodVol = Finite (1 / 8)\<rparr>]"
  proof -
    from repeated_marker_keeps_rows [OF two_flood_sections_scan]
      marker_lines(1) second_flood_section_rows(1)
    obtain s1 where
      a: "scan float_decimal init_state first_flood_section = Inr s1"
      and p: "prefix (flooded_nodes s1 @
                 flood_rows_in float_decimal (flood_header_line # second_flood_rows))
               (flooded_nodes
                  \<lparr>continuity_error_runoff = None, continuity_error_routing = None,
                   in_flooding_table = False, in_surcharge_table = False,
                   flooded_nodes =
                     [\<lparr>node = ustr ''J12'', MaxFloodingRate = Finite (25 / 2), TotalFloodVol = Finite (1 / 4)\<rparr>,
                      \<lparr>node = ustr ''J44'', MaxFloodingRate = Finite (73 / 4), TotalFloodVol = Finite (4 / 5)\<rparr>,
                      \<lparr>node = ustr ''J45'', MaxFloodingRate = Finite (3 / 2), TotalFloodVol = Finite (1 / 8)\<rparr>],
                   surcharged_links = []\<rparr>)"
      by blast
    from a have s1: "flooded_nodes s1 = [\<lparr>node = ustr ''J12'', MaxFloodingRate = Finite (25 / 2), TotalFloodVol = Finite (1 / 4)\<rparr>]"
      unfolding first_flood_section_scan by auto
    show ?thesis
      unfolding two_flood_sections_scan
      using marker_lines(1) second_flood_section_rows(1) a s1
        p [unfolded second_flood_section_rows(2)]
      by simp
  qed
  have surch: "\<exists>s1 s_end.
     scan float_decimal init_state
       (first_surcharge_section @ surcharge_marker_line
          # (surcharge_header_line # second_surcharge_rows) @ [blank_line]) = Inr s_end \<and>
     contains surcharge_marker_line (ustr ''Conduit Surcharge Summary'') \<and>
     \<not> contains surcharge_marker_line (ustr ''Node Flooding Summary'') \<and>
     list_all keeps_surcharge_open (surcharge_header_line # second_surcharge_rows) \<and>
     scan float_decimal init_state first_surcharge_section = Inr s1 \<and>
     surcharged_links s1 = [\<lparr>link = ustr ''C1'', HoursSurcharged = Finite (3 / 2), HoursAboveFullNormal = Finite (3 / 2)\<rparr>] \<and>
     prefix (surcharged_links s1 @ [\<lparr>link = ustr ''C2'', HoursSurcharged = Finite 4, HoursAboveFullNormal = Finite 4\<rparr>])
            (surcharged_links s_end) \<and>
     surcharged_links s_end =
       [\<lparr>link = ustr ''C1'', HoursSurcharged = Finite (3 / 2), HoursAboveFullNormal = Finite (3 / 2)\<rparr>,
        \<lparr>link = ustr ''C2'', HoursSurcharged = Finite 4, HoursAboveFullNormal = Finite 4\<rparr>]"
  proof -
    from repeated_marker_keeps_rows [OF two_surcharge_sections_scan]
      marker_lines(2,3) second_surcharge_section_rows(1)
    obtain s1 where
      a: "scan float_decimal init_state first_surcharge_section = Inr s1"
      and p: "prefix (surcharged_links s1 @
                 surcharge_rows_in float_decimal (surcharge_header_line # second_surcharge_rows))
               (surcharged_links
                  \<lparr>continuity_error_runoff = None, continuity_error_routing = None,
                   in_flooding_table = False, in_surcharge_table = False,
                   flooded_nodes = [],
                   surcharged_links =
                     [\<lparr>link = ustr ''C1'', HoursSurcharged = Finite (3 / 2), HoursAboveFullNormal = Finite (3 / 2)\<rparr>,
                      \<lparr>link = ustr ''C2'', HoursSurcharged = Finite 4, HoursAboveFullNormal = Finite 4\<rparr>]\<rparr>)"
      by blast
    from a have s1: "surcharged_links s1 = [\<lparr>link = ustr ''C1'', HoursSurcharged = Finite (3 / 2), HoursAboveFullNormal = Finite (3 / 2)\<rparr>]"
      unfolding first_surcharge_section_scan by auto
    show ?thesis
      unfolding two_surcharge_sections_scan
      using marker_lines(2,3) second_surcharge_section_rows(1) a s1
        p [unfolded second_surcharge_section_rows(2)]
      by simp
  qed
  from flood surch show ?thesis by (rule conjI)
qed

subsection \<open>C8: failures that reach the caller\<close>

text \<open>
  C8 says that a missing report gives a file-not-found failure and no result, and that this
  is the only failure besides a read error of the source. The first part is
  \<open>missing_report_not_found\<close>, and \<open>stream_error_cases\<close> lists the other failures. The
  second part fails for the same reason as C1: the report below exists and is read to its
  end, and the invocation returns the error dictionary.
\<close>

theorem readable_report_fails:
  "single_report readable_report (ustr ''model.rpt'') = Some (Lines readable_report) \<and>
   parse_swmm_results float_decimal file_order (single_report readable_report)
     (ustr ''model.rpt'') None
   = StreamError (ValueError (ustr ''****''))"
  by code_simp

subsection \<open>C9: the companion path\<close>

text \<open>C9: the result of \<open>parse_swmm_results\<close> does not depend on \<open>inp_path\<close>, given or
  not, whatever the report, the file system, the float reader and the order that
  \<open>list.sort\<close> gives NaN keys are.\<close>

theorem inp_path_ignored:
  "parse_swmm_results pyfloat nan_order fs rpt_path inp_path
   = parse_swmm_results pyfloat nan_order fs rpt_path inp_path'"
  by (simp add: parse_swmm_results_def)

subsection \<open>C10: both tables open at once\<close>

text \<open>
  C10: the step on a line that holds the flooding marker, taken in the surcharge table,
  leaves the surcharge table open and opens the flooding table. In that state a line without
  marker or label that has at least 6 tokens, token 1 a non-negative decimal number, token 0
  neither \<open>Node\<close> nor \<open>Conduit\<close>, and tokens 1, 2, 3 and 5 that parse as floats, is
  appended both to the flooding rows and to the surcharge rows, and both tables stay open.
  The converse transition does close the other table: after the step on a line that holds
  the surcharge marker and not the flooding marker, the surcharge table is open and the
  flooding table is closed.
\<close>

theorem both_tables_active:
  assumes "in_surcharge_table s"
    and "contains marker (ustr ''Node Flooding Summary'')"
    and "step pyfloat s marker = Inr s1"
    and "\<not> contains row (ustr ''Node Flooding Summary'')"
    and "\<not> contains row (ustr ''Conduit Surcharge Summary'')"
    and "\<not> contains row (ustr ''Continuity Error (%)'')"
    and "6 \<le> length (str_split row)"
    and "nonneg_decimal (str_split row ! 1)"
    and "str_split row ! 0 \<noteq> ustr ''Node''" and "str_split row ! 0 \<noteq> ustr ''Conduit''"
    and "pyfloat (str_split row ! 1) = Some hours"
    and "pyfloat (str_split row ! 2) = Some rate"
    and "pyfloat (str_split row ! 3) = Some hours_normal"
    and "pyfloat (str_split row ! 5) = Some vol"
  shows "in_flooding_table s1 \<and> in_surcharge_table s1 \<and>
    (\<exists>s2. step pyfloat s1 row = Inr s2 \<and>
       flooded_nodes s2 = flooded_nodes s1 @
         [\<lparr>node = str_split row ! 0, MaxFloodingRate = rate, TotalFloodVol = vol\<rparr>] \<and>
       surcharged_links s2 = surcharged_links s1 @
         [\<lparr>link = str_split row ! 0, HoursSurcharged = hours,
           HoursAboveFullNormal = hours_normal\<rparr>] \<and>
       in_flooding_table s2 \<and> in_surcharge_table s2) \<and>
    (\<forall>s0 m s'. contains m (ustr ''Conduit Surcharge Summary'') \<and> \<not> contains m (ustr ''Node Flooding Summary'')
        \<and> step pyfloat s0 m = Inr s' \<longrightarrow> in_surcharge_table s' \<and> \<not> in_flooding_table s')"
proof -
  obtain s0 where c: "continuity_step pyfloat s marker = Inr s0"
    and t: "s1 = table_step pyfloat s0 marker"
    using step_Inr [OF assms(3)] by blast
  have flags: "in_flooding_table s1" "in_surcharge_table s1"
    using assms(1,2) continuity_step_tables [OF c] by (simp_all add: t table_step_flood_marker)
  have st: "step pyfloat s1 row = Inr (table_step pyfloat s1 row)"
    using assms(6) by (simp add: step_no_label)
  have "str_split row \<noteq> []" using assms(7) by auto
  then have nb: "\<not> (\<forall>c\<in>set row. isspace c)" by (simp add: str_split_empty_iff)
  note nt = nonneg_decimal_numeric [OF assms(8)]
  have fr: "flood_row pyfloat (str_split row)
      = Some \<lparr>node = str_split row ! 0, MaxFloodingRate = rate, TotalFloodVol = vol\<rparr>"
    using assms(7-14) nt by (simp add: flood_row_def)
  have sr: "surcharge_row pyfloat (str_split row)
      = Some \<lparr>link = str_split row ! 0, HoursSurcharged = hours,
              HoursAboveFullNormal = hours_normal\<rparr>"
    using assms(7-14) nt by (simp add: surcharge_row_def)
  have a: "flooded_nodes (table_step pyfloat s1 row) = flooded_nodes s1 @
         [\<lparr>node = str_split row ! 0, MaxFloodingRate = rate, TotalFloodVol = vol\<rparr>]"
    using step_flooded [OF st] flags assms(4) fr by (simp add: opt_list_def)
  have b: "surcharged_links (table_step pyfloat s1 row) = surcharged_links s1 @
         [\<lparr>link = str_split row ! 0, HoursSurcharged = hours,
           HoursAboveFullNormal = hours_normal\<rparr>]"
    using step_surcharged [OF st] flags assms(4,5) sr by (simp add: opt_list_def)
  have f2: "in_flooding_table (table_step pyfloat s1 row)" "in_surcharge_table (table_step pyfloat s1 row)"
    using table_step_row_flags [OF assms(5) assms(4) nb, of pyfloat s1] flags by simp_all
  have conv: "in_surcharge_table s' \<and> \<not> in_flooding_table s'"
    if h: "contains m (ustr ''Conduit Surcharge Summary'') \<and> \<not> contains m (ustr ''Node Flooding Summary'')
        \<and> step pyfloat s0 m = Inr s'" for s0 :: "'a scan_state" and m s'
  proof -
    from h obtain sc where "s' = table_step pyfloat sc m" using step_Inr by blast
    then show ?thesis using h table_step_surcharge_marker [of m pyfloat sc] by simp
  qed
  from flags st a b f2 conv show ?thesis by blast
qed

text \<open>Witness for C10: the surcharge marker, the flooding marker, then one data row, which
  ends in both lists.\<close>

theorem both_tables_active_witness:
  "scan float_decimal init_state [surcharge_marker_line] = Inr in_surcharge_table_state \<and>
   in_surcharge_table in_surcharge_table_state \<and>
   contains flood_marker_line (ustr ''Node Flooding Summary'') \<and>
   step float_decimal in_surcharge_table_state flood_marker_line
     = Inr (in_surcharge_table_state\<lparr>in_flooding_table := True\<rparr>) \<and>
   in_flooding_table (in_surcharge_table_state\<lparr>in_flooding_table := True\<rparr>) \<and>
   in_surcharge_table (in_surcharge_table_state\<lparr>in_flooding_table := True\<rparr>) \<and>
   (\<exists>s2. step float_decimal (in_surcharge_table_state\<lparr>in_flooding_table := True\<rparr>)
            shared_data_row = Inr s2 \<and>
      flooded_nodes s2 = [\<lparr>node = ustr ''X7'', MaxFloodingRate = Finite (9 / 4), TotalFloodVol = Finite (9 / 2)\<rparr>] \<and>
      surcharged_links s2 = [\<lparr>link = ustr ''X7'', HoursSurcharged = Finite (3 / 2), HoursAboveFullNormal = Finite (3 / 4)\<rparr>])"
proof -
  have s: "scan float_decimal init_state [surcharge_marker_line] = Inr in_surcharge_table_state"
    by code_simp
  have a: "in_surcharge_table in_surcharge_table_state"
    by (simp add: in_surcharge_table_state_def)
  note b = marker_lines(1)
  have c: "step float_decimal in_surcharge_table_state flood_marker_line
     = Inr (in_surcharge_table_state\<lparr>in_flooding_table := True\<rparr>)" by code_simp
  note t = shared_data_row_tokens(1)
  have e: "6 \<le> length (str_split shared_data_row)"
          "nonneg_decimal (str_split shared_data_row ! 1)"
          "str_split shared_data_row ! 0 \<noteq> ustr ''Node''"
          "str_split shared_data_row ! 0 \<noteq> ustr ''Conduit''"
    by (simp_all add: t shared_data_row_tokens(5,10,11))
  have f: "float_decimal (str_split shared_data_row ! 1) = Some (Finite (3 / 2))"
          "float_decimal (str_split shared_data_row ! 2) = Some (Finite (9 / 4))"
          "float_decimal (str_split shared_data_row ! 3) = Some (Finite (3 / 4))"
          "float_decimal (str_split shared_data_row ! 5) = Some (Finite (9 / 2))"
    by (simp_all add: t shared_data_row_tokens(6-9))
  have l: "flooded_nodes (in_surcharge_table_state\<lparr>in_flooding_table := True\<rparr>) = []"
          "surcharged_links (in_surcharge_table_state\<lparr>in_flooding_table := True\<rparr>) = []"
    by (simp_all add: in_surcharge_table_state_def init_state_def)
  have r: "\<exists>s2. step float_decimal (in_surcharge_table_state\<lparr>in_flooding_table := True\<rparr>)
            shared_data_row = Inr s2 \<and>
      flooded_nodes s2 = [\<lparr>node = ustr ''X7'', MaxFloodingRate = Finite (9 / 4), TotalFloodVol = Finite (9 / 2)\<rparr>] \<and>
      surcharged_links s2 = [\<lparr>link = ustr ''X7'', HoursSurcharged = Finite (3 / 2), HoursAboveFullNormal = Finite (3 / 4)\<rparr>]"
    using both_tables_active [OF a b c shared_data_row_tokens(2-4) e f] by (auto simp: t l)
  show ?thesis
    using s a b c r by (auto simp del: scan.simps)
qed

end
